theory Spec2Isabelle
  imports Complex_Main "HOL-Library.Sublist"
begin

section \<open>The request pipeline of \<^verbatim>\<open>server/server.js\<close>\<close>

text \<open>
  \<^verbatim>\<open>server.js\<close> composes an Express 4 application: it registers middleware and
  route handlers on \<^verbatim>\<open>app\<close> in a fixed order. The embedding keeps that shape. Each
  registration becomes a layer, the application is the list of layers in registration
  order, and a request is served by walking the list the way Express's router does.

  The handlers and option objects written in \<^verbatim>\<open>server.js\<close> are translated from the
  file. The packages the file calls (\<^verbatim>\<open>express\<close>, \<^verbatim>\<open>cors\<close>, the body parsers,
  \<^verbatim>\<open>express-rate-limit\<close>) are not part of it: where a definition gives the behaviour
  of such a package under the options the file passes, its comment says so. Middleware
  whose inner working no statement below depends on (helmet, cookie-parser, morgan, the
  authentication chain, the mounted routers) is left open: its outcome for the request
  is a parameter.
\<close>

subsection \<open>Values\<close>

text \<open>JSON values, as sent by \<^verbatim>\<open>res.json\<close>. An object keeps its keys in order.\<close>

datatype json =
    JNull
  | JBool bool
  | JNum rat
  | JStr string
  | JArr "json list"
  | JObj "(string \<times> json) list"

text \<open>
  A JavaScript error value as the handlers read it: \<^verbatim>\<open>err.message\<close>,
  \<^verbatim>\<open>err.status\<close> (\<open>None\<close> when the property is undefined) and \<^verbatim>\<open>err.stack\<close>.
\<close>

record js_error =
  err_message :: string
  err_status :: "nat option"
  err_stack :: string

text \<open>\<^verbatim>\<open>new Error(msg)\<close>: no status; the stack trace is not modelled.\<close>

definition new_Error :: "string \<Rightarrow> js_error" where
  "new_Error msg = \<lparr>err_message = msg, err_status = None, err_stack = []\<rparr>"

text \<open>Lines written to the console.\<close>

datatype log_entry =
    ConsoleWarn string
  | ConsoleError string

subsection \<open>Regular expressions of the allow-list\<close>

text \<open>
  The two patterns of \<^verbatim>\<open>allowedOrigins\<close> use literals, \<^verbatim>\<open>\d\<close>, \<^verbatim>\<open>?\<close>,
  \<^verbatim>\<open>+\<close>, grouping and the anchors \<^verbatim>\<open>^\<close> and \<^verbatim>\<open>$\<close>. Neither has a flag, so
  \<^verbatim>\<open>test\<close> keeps no state between calls and \<^verbatim>\<open>$\<close> is the end of the input.
\<close>

datatype regex =
    Never
  | Empty
  | Lit char
  | Digit
  | Cat regex regex
  | Alt regex regex
  | Star regex

definition Opt :: "regex \<Rightarrow> regex" where
  "Opt r = Alt r Empty"

definition Plus :: "regex \<Rightarrow> regex" where
  "Plus r = Cat r (Star r)"

primrec Str :: "string \<Rightarrow> regex" where
  "Str [] = Empty"
| "Str (c # cs) = Cat (Lit c) (Str cs)"

definition is_digit :: "char \<Rightarrow> bool" where
  "is_digit c = (c \<in> set ''0123456789'')"

primrec nullable :: "regex \<Rightarrow> bool" where
  "nullable Never = False"
| "nullable Empty = True"
| "nullable (Lit c) = False"
| "nullable Digit = False"
| "nullable (Cat r s) = (nullable r \<and> nullable s)"
| "nullable (Alt r s) = (nullable r \<or> nullable s)"
| "nullable (Star r) = True"

primrec deriv :: "char \<Rightarrow> regex \<Rightarrow> regex" where
  "deriv a Never = Never"
| "deriv a Empty = Never"
| "deriv a (Lit c) = (if a = c then Empty else Never)"
| "deriv a Digit = (if is_digit a then Empty else Never)"
| "deriv a (Cat r s) =
     (if nullable r then Alt (Cat (deriv a r) s) (deriv a s) else Cat (deriv a r) s)"
| "deriv a (Alt r s) = Alt (deriv a r) (deriv a s)"
| "deriv a (Star r) = Cat (deriv a r) (Star r)"

text \<open>The whole string is matched by the expression.\<close>

primrec matches :: "regex \<Rightarrow> string \<Rightarrow> bool" where
  "matches r [] = nullable r"
| "matches r (a # as) = matches (deriv a r) as"

text \<open>
  A pattern with both anchors must match the whole string; a pattern with only
  \<^verbatim>\<open>$\<close> must match from some position up to the end.
\<close>

datatype js_regexp =
    Whole regex
  | AtEnd regex

primrec regexp_test :: "js_regexp \<Rightarrow> string \<Rightarrow> bool" where
  "regexp_test (Whole r) s = matches r s"
| "regexp_test (AtEnd r) s = list_ex (matches r) (suffixes s)"

subsection \<open>Origin authorization\<close>

text \<open>An entry of \<^verbatim>\<open>allowedOrigins\<close> is a regular expression or a string.\<close>

datatype origin_pattern =
    RegExpPattern js_regexp
  | StringPattern string

text \<open>
  \<^verbatim>\<open>/^https?:\/\/localhost(:\d+)?$/\<close>, \<^verbatim>\<open>/\.vercel\.app$/\<close> and the two
  production domains.
\<close>

definition localhost_regexp :: js_regexp where
  "localhost_regexp =
     Whole (Cat (Str ''http'') (Cat (Opt (Lit CHR ''s'')) (Cat (Str ''://localhost'')
       (Opt (Cat (Lit CHR '':'') (Plus Digit))))))"

definition vercel_regexp :: js_regexp where
  "vercel_regexp = AtEnd (Str ''.vercel.app'')"

definition allowedOrigins :: "origin_pattern list" where
  "allowedOrigins =
     [RegExpPattern localhost_regexp,
      RegExpPattern vercel_regexp,
      StringPattern ''https://homeswift.ai'',
      StringPattern ''https://www.homeswift.ai'']"

text \<open>\<^verbatim>\<open>pattern instanceof RegExp ? pattern.test(origin) : pattern === origin\<close>\<close>

primrec pattern_matches :: "string \<Rightarrow> origin_pattern \<Rightarrow> bool" where
  "pattern_matches origin (RegExpPattern p) = regexp_test p origin"
| "pattern_matches origin (StringPattern p) = (p = origin)"

text \<open>
  What the \<^verbatim>\<open>origin\<close> function of \<^verbatim>\<open>corsOptions\<close> hands to its callback: the
  error (if any), the allow flag, and what it wrote to the console.
\<close>

record origin_decision =
  cb_error :: "js_error option"
  cb_allow :: bool
  cb_log :: "log_entry list"

text \<open>
  \<^verbatim>\<open>req.headers.origin\<close> is undefined (\<open>None\<close>) or a string. \<^verbatim>\<open>!origin\<close> holds
  for undefined and for the empty string.
\<close>

definition no_origin :: "string option \<Rightarrow> bool" where
  "no_origin origin = (case origin of None \<Rightarrow> True | Some s \<Rightarrow> s = [])"

definition isAllowed :: "string \<Rightarrow> bool" where
  "isAllowed origin = list_ex (pattern_matches origin) allowedOrigins"

definition cors_message :: "string \<Rightarrow> string" where
  "cors_message origin = ''CORS policy: '' @ origin @ '' not allowed''"

definition origin_callback :: "string option \<Rightarrow> origin_decision" where
  "origin_callback origin =
     (case origin of
        None \<Rightarrow> \<lparr>cb_error = None, cb_allow = True, cb_log = []\<rparr>
      | Some s \<Rightarrow>
          if s = [] then \<lparr>cb_error = None, cb_allow = True, cb_log = []\<rparr>
          else if isAllowed s then \<lparr>cb_error = None, cb_allow = True, cb_log = []\<rparr>
          else \<lparr>cb_error = Some (new_Error (cors_message s)), cb_allow = False,
                 cb_log = [ConsoleWarn (cors_message s)]\<rparr>)"

subsection \<open>Requests and responses\<close>

text \<open>
  The request verb. Node hands the verb over in upper case; \<open>OtherMethod\<close> stands for
  any verb besides the seven the file names.
\<close>

datatype http_method = GET | HEAD | POST | PUT | DELETE | PATCH | OPTIONS | OtherMethod string

datatype content_type = ApplicationJson | FormUrlencoded | OtherContent

text \<open>
  A request payload: its media type, its length in bytes, and what the body parser
  makes of it when it reads it (the parsed value, or the error it raises for a payload
  it cannot decode or parse).
\<close>

record payload =
  payload_type :: content_type
  payload_length :: nat
  payload_parse :: "js_error + json"

text \<open>\<open>req_path\<close> is the path of the URL, without the query string.\<close>

record request =
  req_method :: http_method
  req_path :: string
  req_origin :: "string option"
  req_payload :: "payload option"

datatype res_body =
    NoBody
  | TextBody string
  | JsonBody json

record response =
  res_status :: nat
  res_headers :: "(string \<times> string) list"
  res_body :: res_body

text \<open>
  The session object. \<^verbatim>\<open>views\<close> is undefined (\<open>None\<close>) or a count; the cookie
  settings that express-session keeps inside the object are carried as they are.
\<close>

record session_data =
  sess_cookie :: json
  sess_views :: "nat option"

text \<open>
  What the stages share while one request is served: the request, the headers set on
  the response so far, \<^verbatim>\<open>req.body\<close>, and \<^verbatim>\<open>req.sessionID\<close> with
  \<^verbatim>\<open>req.session\<close>.
\<close>

record req_context =
  ctx_req :: request
  ctx_headers :: "(string \<times> string) list"
  ctx_body :: "json option"
  ctx_session :: "(string \<times> session_data) option"

text \<open>
  A handler ends in one of three ways: it calls \<^verbatim>\<open>next()\<close>, it calls
  \<^verbatim>\<open>next(err)\<close> or throws, or it sends the response.
\<close>

datatype outcome =
    Next
  | NextErr js_error
  | Reply response

record step_result =
  sr_outcome :: outcome
  sr_ctx :: req_context
  sr_log :: "log_entry list"

definition pass :: "req_context \<Rightarrow> step_result" where
  "pass ctx = \<lparr>sr_outcome = Next, sr_ctx = ctx, sr_log = []\<rparr>"

definition fail :: "js_error \<Rightarrow> req_context \<Rightarrow> step_result" where
  "fail e ctx = \<lparr>sr_outcome = NextErr e, sr_ctx = ctx, sr_log = []\<rparr>"

text \<open>\<^verbatim>\<open>res.status(code)\<close> followed by \<^verbatim>\<open>send\<close>, \<^verbatim>\<open>json\<close> or \<^verbatim>\<open>end\<close>.\<close>

definition send :: "nat \<Rightarrow> res_body \<Rightarrow> req_context \<Rightarrow> step_result" where
  "send code b ctx =
     \<lparr>sr_outcome = Reply \<lparr>res_status = code, res_headers = ctx_headers ctx, res_body = b\<rparr>,
      sr_ctx = ctx, sr_log = []\<rparr>"

subsection \<open>The stages\<close>

datatype stage =
    Cors
  | CorsPreflight
  | Helmet
  | Limiter
  | RootRoute
  | FaviconRoute
  | CookieParser
  | ExpressJson
  | ExpressUrlencoded
  | SessionMiddleware
  | Morgan
  | SessionTest
  | Health
  | JwtAuth
  | CheckRememberToken
  | LoadUser
  | AuthRoutes
  | UserRoutes
  | SearchRoutes
  | TestRoutes
  | PropertyRouter
  | NotFound
  | GlobalErrorHandler
  | ErrorHandlingMiddleware

text \<open>
  Everything outside the request that the pipeline reads.
  \<^item> \<open>process_env\<close> is \<^verbatim>\<open>process.env\<close> when the body of \<^verbatim>\<open>server.js\<close> starts to
    run, and \<open>dotenv_file\<close> the entries of \<^verbatim>\<open>server/.env\<close> (none when the file is
    missing).
  \<^item> \<open>timestamp\<close>, \<open>uptime\<close> and \<open>sequelize\<close> are what the health check reads:
    \<^verbatim>\<open>new Date().toISOString()\<close>, \<^verbatim>\<open>process.uptime()\<close> and whether
    \<^verbatim>\<open>models.getSequelize()\<close> is truthy.
  \<^item> \<open>opaque\<close> is how the middleware this file only mounts ends for this request:
    helmet, cookie-parser, morgan, the three authentication middlewares and the five
    routers. None of them sets a context field before a handler of this file reads it.
  \<^item> \<open>limiter_hits\<close> is the number the limiter's store returns for this request: the
    requests of this client counted in the current window, this one included.
  \<^item> \<open>session_lookup\<close> is what express-session attaches to the request, the session
    id and the session object (loaded from the store, or new), or the store's error.
\<close>

record world =
  process_env :: "string \<rightharpoonup> string"
  dotenv_file :: "string \<rightharpoonup> string"
  timestamp :: string
  uptime :: rat
  sequelize :: bool
  opaque :: "stage \<Rightarrow> outcome"
  limiter_hits :: nat
  session_lookup :: "js_error + string \<times> session_data"

text \<open>
  \<^verbatim>\<open>dotenv.config\<close> (line 80) adds the entries of the file for the names that
  \<^verbatim>\<open>process.env\<close> does not have yet; it overrides nothing. Every read of
  \<^verbatim>\<open>process.env\<close> below that line, and every read made while a request is served,
  sees \<open>env\<close>.
\<close>

definition env :: "world \<Rightarrow> string \<rightharpoonup> string" where
  "env w = dotenv_file w ++ process_env w"

text \<open>
  Lines 21 to 23 run before \<^verbatim>\<open>dotenv.config\<close>: \<^verbatim>\<open>app.set('trust proxy', 1)\<close> when
  \<^verbatim>\<open>process.env.NODE_ENV === 'production'\<close> there. \<open>None\<close> is Express's default,
  no proxy trusted.
\<close>

definition trust_proxy :: "world \<Rightarrow> nat option" where
  "trust_proxy w = (if process_env w ''NODE_ENV'' = Some ''production'' then Some 1 else None)"

text \<open>Line 137.\<close>

definition isProduction :: "world \<Rightarrow> bool" where
  "isProduction w = (env w ''NODE_ENV'' = Some ''production'')"

definition opaque_stage :: "world \<Rightarrow> stage \<Rightarrow> req_context \<Rightarrow> step_result" where
  "opaque_stage w st ctx = \<lparr>sr_outcome = opaque w st, sr_ctx = ctx, sr_log = []\<rparr>"

subsection \<open>CORS options and the cors middleware\<close>

record cors_options =
  cors_origin :: "string option \<Rightarrow> origin_decision"
  cors_credentials :: bool
  cors_methods :: "string list"
  cors_allowedHeaders :: "string list"
  cors_exposedHeaders :: "string list"
  cors_maxAge :: nat
  cors_preflightContinue :: bool
  cors_optionsSuccessStatus :: nat

definition corsOptions :: cors_options where
  "corsOptions =
     \<lparr>cors_origin = origin_callback,
      cors_credentials = True,
      cors_methods = [''GET'', ''POST'', ''PUT'', ''DELETE'', ''PATCH'', ''OPTIONS'', ''HEAD''],
      cors_allowedHeaders =
        [''Content-Type'', ''Authorization'', ''X-Requested-With'', ''Accept'', ''Origin'',
         ''X-Access-Token'', ''X-Refresh-Token'', ''X-XSRF-TOKEN''],
      cors_exposedHeaders =
        [''Content-Range'', ''X-Total-Count'', ''X-Access-Token'', ''X-Refresh-Token'',
         ''Set-Cookie''],
      cors_maxAge = 86400,
      cors_preflightContinue = False,
      cors_optionsSuccessStatus = 204\<rparr>"

text \<open>\<^verbatim>\<open>Array.prototype.join(',')\<close> and \<^verbatim>\<open>Number.prototype.toString\<close> on a count.\<close>

fun join_comma :: "string list \<Rightarrow> string" where
  "join_comma [] = []"
| "join_comma [x] = x"
| "join_comma (x # y # ys) = x @ '','' @ join_comma (y # ys)"

definition digit_char :: "nat \<Rightarrow> char" where
  "digit_char d = ''0123456789'' ! d"

fun string_of_nat :: "nat \<Rightarrow> string" where
  "string_of_nat n =
     (if n < 10 then [digit_char n]
      else string_of_nat (n div 10) @ [digit_char (n mod 10)])"

declare string_of_nat.simps [simp del]

text \<open>
  The headers the cors package computes from the options. With a function as
  \<^verbatim>\<open>origin\<close> that allowed the request, it reflects the request's origin (no header
  when there is none) and adds \<^verbatim>\<open>Vary: Origin\<close>.
\<close>

definition configureOrigin :: "request \<Rightarrow> (string \<times> string) list" where
  "configureOrigin req =
     (case req_origin req of
        None \<Rightarrow> []
      | Some s \<Rightarrow> if s = [] then [] else [(''Access-Control-Allow-Origin'', s)])
     @ [(''Vary'', ''Origin'')]"

definition configureCredentials :: "cors_options \<Rightarrow> (string \<times> string) list" where
  "configureCredentials opts =
     (if cors_credentials opts then [(''Access-Control-Allow-Credentials'', ''true'')] else [])"

definition configureMethods :: "cors_options \<Rightarrow> (string \<times> string) list" where
  "configureMethods opts = [(''Access-Control-Allow-Methods'', join_comma (cors_methods opts))]"

definition configureAllowedHeaders :: "cors_options \<Rightarrow> (string \<times> string) list" where
  "configureAllowedHeaders opts =
     (if join_comma (cors_allowedHeaders opts) = [] then []
      else [(''Access-Control-Allow-Headers'', join_comma (cors_allowedHeaders opts))])"

definition configureMaxAge :: "cors_options \<Rightarrow> (string \<times> string) list" where
  "configureMaxAge opts = [(''Access-Control-Max-Age'', string_of_nat (cors_maxAge opts))]"

definition configureExposedHeaders :: "cors_options \<Rightarrow> (string \<times> string) list" where
  "configureExposedHeaders opts =
     (if join_comma (cors_exposedHeaders opts) = [] then []
      else [(''Access-Control-Expose-Headers'', join_comma (cors_exposedHeaders opts))])"

definition preflight_headers :: "cors_options \<Rightarrow> request \<Rightarrow> (string \<times> string) list" where
  "preflight_headers opts req =
     configureOrigin req @ configureCredentials opts @ configureMethods opts
     @ configureAllowedHeaders opts @ configureMaxAge opts @ configureExposedHeaders opts"

definition actual_headers :: "cors_options \<Rightarrow> request \<Rightarrow> (string \<times> string) list" where
  "actual_headers opts req =
     configureOrigin req @ configureCredentials opts @ configureExposedHeaders opts"

text \<open>
  The middleware returned by \<^verbatim>\<open>cors(corsOptions)\<close>, as the cors package runs it. It
  first calls the \<^verbatim>\<open>origin\<close> function of the options. An error from the callback
  goes to \<^verbatim>\<open>next(err)\<close>; a refusal without error goes to \<^verbatim>\<open>next()\<close> with no
  header set. Otherwise a request with the verb OPTIONS is a preflight: the preflight
  headers are set and, unless \<^verbatim>\<open>preflightContinue\<close> is set, the response is ended
  with \<^verbatim>\<open>optionsSuccessStatus\<close> and \<^verbatim>\<open>Content-Length: 0\<close>. Any other request gets
  the headers of an actual response and goes on.
\<close>

definition cors :: "cors_options \<Rightarrow> req_context \<Rightarrow> step_result" where
  "cors opts ctx =
     (let req = ctx_req ctx; d = cors_origin opts (req_origin req) in
      case cb_error d of
        Some e \<Rightarrow> \<lparr>sr_outcome = NextErr e, sr_ctx = ctx, sr_log = cb_log d\<rparr>
      | None \<Rightarrow>
          if \<not> cb_allow d then \<lparr>sr_outcome = Next, sr_ctx = ctx, sr_log = cb_log d\<rparr>
          else if req_method req = OPTIONS then
            (let ctx' = ctx\<lparr>ctx_headers := ctx_headers ctx @ preflight_headers opts req\<rparr> in
             if cors_preflightContinue opts
             then \<lparr>sr_outcome = Next, sr_ctx = ctx', sr_log = cb_log d\<rparr>
             else \<lparr>sr_outcome = Reply
                     \<lparr>res_status = cors_optionsSuccessStatus opts,
                      res_headers = ctx_headers ctx' @ [(''Content-Length'', ''0'')],
                      res_body = NoBody\<rparr>,
                   sr_ctx = ctx', sr_log = cb_log d\<rparr>)
          else \<lparr>sr_outcome = Next,
                sr_ctx = ctx\<lparr>ctx_headers := ctx_headers ctx @ actual_headers opts req\<rparr>,
                sr_log = cb_log d\<rparr>)"

subsection \<open>Rate limiter options\<close>

text \<open>
  \<^verbatim>\<open>parseInt\<close> with one argument: leading white space is skipped, a sign is read,
  a prefix \<^verbatim>\<open>0x\<close> selects radix 16, and the longest run of digits is the value;
  with no digit the result is NaN (\<open>None\<close>). An undefined argument is NaN. White space
  is the ASCII part of JavaScript's; a value of \<open>2 ^ 53\<close> or more, which JavaScript
  rounds to a double, is read exactly here.
\<close>

definition js_whitespace :: "char \<Rightarrow> bool" where
  "js_whitespace c = (c \<in> set [CHR 0x09, CHR 0x0A, CHR 0x0B, CHR 0x0C, CHR 0x0D, CHR 0x20])"

definition digit_of :: "nat \<Rightarrow> char \<Rightarrow> nat option" where
  "digit_of radix c =
     (let n = (of_char c :: nat);
          v = (if 48 \<le> n \<and> n \<le> 57 then Some (n - 48)
               else if 97 \<le> n \<and> n \<le> 122 then Some (n - 87)
               else if 65 \<le> n \<and> n \<le> 90 then Some (n - 55)
               else None)
      in case v of None \<Rightarrow> None | Some d \<Rightarrow> if d < radix then Some d else None)"

fun read_digits :: "nat \<Rightarrow> nat \<Rightarrow> string \<Rightarrow> nat" where
  "read_digits radix acc [] = acc"
| "read_digits radix acc (c # cs) =
     (case digit_of radix c of
        None \<Rightarrow> acc
      | Some d \<Rightarrow> read_digits radix (acc * radix + d) cs)"

definition strip_sign :: "string \<Rightarrow> bool \<times> string" where
  "strip_sign s =
     (case s of
        [] \<Rightarrow> (False, [])
      | c # cs \<Rightarrow>
          if c = CHR ''-'' then (True, cs) else if c = CHR ''+'' then (False, cs) else (False, s))"

definition strip_radix :: "string \<Rightarrow> nat \<times> string" where
  "strip_radix s = (if take 2 s = ''0x'' \<or> take 2 s = ''0X'' then (16, drop 2 s) else (10, s))"

definition starts_with_digit :: "nat \<Rightarrow> string \<Rightarrow> bool" where
  "starts_with_digit radix s = (case s of [] \<Rightarrow> False | c # _ \<Rightarrow> digit_of radix c \<noteq> None)"

definition parseInt :: "string option \<Rightarrow> int option" where
  "parseInt v =
     (case v of
        None \<Rightarrow> None
      | Some s \<Rightarrow>
          (let (negative, s2) = strip_sign (dropWhile js_whitespace s);
               (radix, s3) = strip_radix s2
           in if starts_with_digit radix s3
              then Some ((if negative then - 1 else 1) * int (read_digits radix 0 s3))
              else None))"

text \<open>\<^verbatim>\<open>x || d\<close> on a number: NaN and zero are falsy.\<close>

definition number_or :: "int option \<Rightarrow> int \<Rightarrow> int" where
  "number_or x d = (case x of None \<Rightarrow> d | Some n \<Rightarrow> if n = 0 then d else n)"

definition limiter_windowMs :: "world \<Rightarrow> int" where
  "limiter_windowMs w = number_or (parseInt (env w ''RATE_LIMIT_WINDOW_MS'')) (15 * 60 * 1000)"

definition limiter_max :: "world \<Rightarrow> int" where
  "limiter_max w = number_or (parseInt (env w ''RATE_LIMIT_MAX_REQUESTS'')) 100"

definition limiter_message :: json where
  "limiter_message = JObj [(''error'', JStr ''Too many requests, please try again later.'')]"

text \<open>
  The middleware returned by \<^verbatim>\<open>rateLimit\<close>, as express-rate-limit runs it: when the
  count the store returns for the request exceeds \<^verbatim>\<open>max\<close>, the response is the
  \<^verbatim>\<open>message\<close> with status 429, the package's default; otherwise \<^verbatim>\<open>next()\<close>.
\<close>

definition limiter :: "world \<Rightarrow> req_context \<Rightarrow> step_result" where
  "limiter w ctx =
     (if limiter_max w < int (limiter_hits w) then send 429 (JsonBody limiter_message) ctx
      else pass ctx)"

subsection \<open>Body parsing\<close>

text \<open>\<^verbatim>\<open>limit: '10mb'\<close>; the unit \<^verbatim>\<open>mb\<close> is \<open>1024 * 1024\<close> bytes.\<close>

definition body_limit :: nat where
  "body_limit = 10 * 1024 * 1024"

definition too_large :: js_error where
  "too_large = \<lparr>err_message = ''request entity too large'', err_status = Some 413, err_stack = []\<rparr>"

text \<open>
  The middleware returned by \<^verbatim>\<open>express.json\<close> and \<^verbatim>\<open>express.urlencoded\<close>, as the
  body-parser package runs them: \<^verbatim>\<open>req.body\<close> becomes the empty object if it is
  unset; a request without payload, or with a payload of another media type, goes on; a
  payload longer than the limit fails with status 413; otherwise the payload is parsed,
  and the parsed value becomes \<^verbatim>\<open>req.body\<close> or the parser's error is raised.
\<close>

definition body_parser :: "content_type \<Rightarrow> nat \<Rightarrow> req_context \<Rightarrow> step_result" where
  "body_parser ty limit ctx =
     (let ctx0 = ctx\<lparr>ctx_body := Some (case ctx_body ctx of None \<Rightarrow> JObj [] | Some b \<Rightarrow> b)\<rparr> in
      case req_payload (ctx_req ctx) of
        None \<Rightarrow> pass ctx0
      | Some p \<Rightarrow>
          if payload_type p \<noteq> ty then pass ctx0
          else if limit < payload_length p then fail too_large ctx0
          else (case payload_parse p of
                  Inl e \<Rightarrow> fail e ctx0
                | Inr v \<Rightarrow> pass (ctx0\<lparr>ctx_body := Some v\<rparr>)))"

subsection \<open>Session options and the session stage\<close>

datatype secure_option = SecureTrue | SecureAuto

record cookie_options =
  cookie_secure :: secure_option
  cookie_httpOnly :: bool
  cookie_sameSite :: string
  cookie_maxAge :: nat
  cookie_domain :: string

record session_options =
  opt_secret :: string
  opt_resave :: bool
  opt_saveUninitialized :: bool
  opt_proxy :: bool
  opt_cookie :: cookie_options
  opt_checkPeriod :: nat

text \<open>\<^verbatim>\<open>process.env.SESSION_SECRET || 'dev-secret-key'\<close>: the empty string is falsy.\<close>

definition session_secret :: "world \<Rightarrow> string" where
  "session_secret w =
     (case env w ''SESSION_SECRET'' of
        None \<Rightarrow> ''dev-secret-key''
      | Some s \<Rightarrow> if s = [] then ''dev-secret-key'' else s)"

definition sessionConfig :: "world \<Rightarrow> session_options" where
  "sessionConfig w =
     \<lparr>opt_secret = session_secret w,
      opt_resave = False,
      opt_saveUninitialized = False,
      opt_proxy = isProduction w,
      opt_cookie =
        \<lparr>cookie_secure = (if isProduction w then SecureTrue else SecureAuto),
         cookie_httpOnly = True,
         cookie_sameSite = (if isProduction w then ''none'' else ''lax''),
         cookie_maxAge = 1000 * 60 * 60 * 2,
         cookie_domain = (if isProduction w then ''.homeswift-ai.vercel.app'' else ''localhost'')\<rparr>,
      opt_checkPeriod = 15 * 60 * 1000\<rparr>"

text \<open>
  The session stage attaches the session that express-session resolves for the request,
  or passes on the error of its store.
\<close>

definition sessionMiddleware :: "world \<Rightarrow> req_context \<Rightarrow> step_result" where
  "sessionMiddleware w ctx =
     (case session_lookup w of
        Inl e \<Rightarrow> fail e ctx
      | Inr sess \<Rightarrow> pass (ctx\<lparr>ctx_session := Some sess\<rparr>))"

subsection \<open>The handlers of this file\<close>

text \<open>The banner ends in the rocket emoji, here as its four UTF-8 bytes.\<close>

definition banner :: string where
  "banner = ''HomeSwift API is running '' @ [CHR 0xF0, CHR 0x9F, CHR 0x9A, CHR 0x80]"

definition root_route :: "req_context \<Rightarrow> step_result" where
  "root_route ctx = send 200 (TextBody banner) ctx"

definition favicon_route :: "req_context \<Rightarrow> step_result" where
  "favicon_route ctx = send 204 NoBody ctx"

text \<open>
  \<^verbatim>\<open>views++\<close> on a JavaScript number holding a count: exact below \<open>2 ^ 53\<close>; from
  there on the sum rounds back to the number itself.
\<close>

definition js_increment :: "nat \<Rightarrow> nat" where
  "js_increment n = (if n < 2 ^ 53 then n + 1 else n)"

text \<open>\<^verbatim>\<open>JSON.stringify\<close> of the session object: an undefined property is left out.\<close>

definition session_json :: "session_data \<Rightarrow> json" where
  "session_json s =
     JObj ((''cookie'', sess_cookie s) #
           (case sess_views s of None \<Rightarrow> [] | Some v \<Rightarrow> [(''views'', JNum (of_nat v))]))"

text \<open>
  The handler of \<^verbatim>\<open>/api/session-test\<close>. \<open>next_views\<close> is the count after lines
  171 to 176: an undefined or zero count is set to zero, then the count is incremented.
  Reading \<^verbatim>\<open>req.session.views\<close> without a session throws a TypeError; the session
  stage runs before this handler, so the application never takes that branch.
\<close>

definition next_views :: "session_data \<Rightarrow> nat" where
  "next_views s =
     js_increment (case sess_views s of None \<Rightarrow> 0 | Some v \<Rightarrow> if v = 0 then 0 else v)"

definition session_test :: "req_context \<Rightarrow> step_result" where
  "session_test ctx =
     (case ctx_session ctx of
        None \<Rightarrow> fail (new_Error ''Cannot read properties of undefined'') ctx
      | Some (sid, s) \<Rightarrow>
          let s' = s\<lparr>sess_views := Some (next_views s)\<rparr>
          in send 200
               (JsonBody (JObj
                  [(''message'', JStr ''Session test successful''),
                   (''views'', JNum (of_nat (next_views s))),
                   (''sessionId'', JStr sid),
                   (''session'', session_json s')]))
               (ctx\<lparr>ctx_session := Some (sid, s')\<rparr>))"

definition health :: "world \<Rightarrow> req_context \<Rightarrow> step_result" where
  "health w ctx =
     send 200
       (JsonBody (JObj
          [(''status'', JStr ''OK''),
           (''timestamp'', JStr (timestamp w)),
           (''uptime'', JNum (uptime w)),
           (''database'', JStr (if sequelize w then ''connected'' else ''disconnected''))]))
       ctx"

definition not_found :: "req_context \<Rightarrow> step_result" where
  "not_found ctx =
     send 404 (JsonBody (JObj [(''success'', JBool False), (''error'', JStr ''Route not found'')])) ctx"

text \<open>\<^verbatim>\<open>err.status || 500\<close>: an undefined status and the status 0 are falsy.\<close>

definition status_or_500 :: "js_error \<Rightarrow> nat" where
  "status_or_500 err = (case err_status err of None \<Rightarrow> 500 | Some n \<Rightarrow> if n = 0 then 500 else n)"

text \<open>The first error handler, lines 217 to 224.\<close>

definition global_error_handler :: "world \<Rightarrow> js_error \<Rightarrow> req_context \<Rightarrow> step_result" where
  "global_error_handler w err ctx =
     (send (status_or_500 err)
        (JsonBody (JObj
           [(''success'', JBool False),
            (''error'', JStr (if env w ''NODE_ENV'' = Some ''production''
                              then ''Something went wrong!'' else err_message err))]))
        ctx)
     \<lparr>sr_log := [ConsoleError (''Global error handler: '' @ err_stack err)]\<rparr>"

text \<open>The second error handler, lines 240 to 246.\<close>

definition error_handling_middleware :: "world \<Rightarrow> js_error \<Rightarrow> req_context \<Rightarrow> step_result" where
  "error_handling_middleware w err ctx =
     (send (status_or_500 err)
        (JsonBody (JObj
           ((''error'', JStr (if err_message err = [] then ''Internal Server Error''
                              else err_message err)) #
            (if env w ''NODE_ENV'' = Some ''development''
             then [(''stack'', JStr (err_stack err))] else []))))
        ctx)
     \<lparr>sr_log := [ConsoleError (''Server Error: '' @ err_stack err)]\<rparr>"

subsection \<open>Layers and route matching\<close>

text \<open>
  A registration on \<^verbatim>\<open>app\<close>: the stage it installs, the requests it applies to,
  and the handler. A handler of four parameters is an error handler.
\<close>

datatype handler =
    Middleware "req_context \<Rightarrow> step_result"
  | ErrorMiddleware "js_error \<Rightarrow> req_context \<Rightarrow> step_result"

record layer =
  l_stage :: stage
  l_match :: "request \<Rightarrow> bool"
  l_handler :: handler

text \<open>
  Express 4 compares paths without regard to the case of ASCII letters. A route path
  (\<^verbatim>\<open>app.get\<close>) must cover the whole request path, up to one trailing slash; a
  mount path (\<^verbatim>\<open>app.use\<close> with a path) must be a prefix of it that ends at a
  segment boundary. A route registered with \<^verbatim>\<open>get\<close> also serves HEAD.
\<close>

definition to_lower :: "char \<Rightarrow> char" where
  "to_lower c =
     (case map_of (zip ''ABCDEFGHIJKLMNOPQRSTUVWXYZ'' ''abcdefghijklmnopqrstuvwxyz'') c of
        None \<Rightarrow> c
      | Some l \<Rightarrow> l)"

definition lower :: "string \<Rightarrow> string" where
  "lower s = map to_lower s"

definition route_path :: "string \<Rightarrow> string \<Rightarrow> bool" where
  "route_path pat p =
     (if pat \<noteq> [] \<and> last pat = CHR ''/''
      then lower p = lower pat \<or> lower p = lower (butlast pat)
      else lower p = lower pat \<or> lower p = lower pat @ ''/'')"

definition mount_path :: "string \<Rightarrow> string \<Rightarrow> bool" where
  "mount_path pat p =
     (lower (take (length pat) p) = lower pat \<and>
      (case drop (length pat) p of [] \<Rightarrow> True | c # _ \<Rightarrow> c = CHR ''/''))"

definition handles_get :: "http_method \<Rightarrow> bool" where
  "handles_get m = (m = GET \<or> m = HEAD)"

text \<open>\<^verbatim>\<open>app.use(fn)\<close> and \<^verbatim>\<open>app.use('*', fn)\<close>: every request.\<close>

definition app_use :: "stage \<Rightarrow> (req_context \<Rightarrow> step_result) \<Rightarrow> layer" where
  "app_use st h = \<lparr>l_stage = st, l_match = (\<lambda>req. True), l_handler = Middleware h\<rparr>"

text \<open>\<^verbatim>\<open>app.use(path, router)\<close>\<close>

definition app_use_at :: "string \<Rightarrow> stage \<Rightarrow> (req_context \<Rightarrow> step_result) \<Rightarrow> layer" where
  "app_use_at pat st h =
     \<lparr>l_stage = st, l_match = (\<lambda>req. mount_path pat (req_path req)), l_handler = Middleware h\<rparr>"

text \<open>\<^verbatim>\<open>app.get(path, fn)\<close>\<close>

definition app_get :: "string \<Rightarrow> stage \<Rightarrow> (req_context \<Rightarrow> step_result) \<Rightarrow> layer" where
  "app_get pat st h =
     \<lparr>l_stage = st,
      l_match = (\<lambda>req. handles_get (req_method req) \<and> route_path pat (req_path req)),
      l_handler = Middleware h\<rparr>"

text \<open>\<^verbatim>\<open>app.options('*', fn)\<close>: every path, the verb OPTIONS.\<close>

definition app_options_star :: "stage \<Rightarrow> (req_context \<Rightarrow> step_result) \<Rightarrow> layer" where
  "app_options_star st h =
     \<lparr>l_stage = st, l_match = (\<lambda>req. req_method req = OPTIONS), l_handler = Middleware h\<rparr>"

text \<open>\<^verbatim>\<open>app.use((err, req, res, next) => ...)\<close>\<close>

definition app_use_error :: "stage \<Rightarrow> (js_error \<Rightarrow> req_context \<Rightarrow> step_result) \<Rightarrow> layer" where
  "app_use_error st h = \<lparr>l_stage = st, l_match = (\<lambda>req. True), l_handler = ErrorMiddleware h\<rparr>"

subsection \<open>The application\<close>

text \<open>
  The registrations of \<^verbatim>\<open>server.js\<close>, in the order of the file and grouped as the
  file's comments group them.
\<close>

text \<open>Lines 76 to 125: CORS, security headers, rate limiting, root and favicon routes.\<close>

definition entry :: "world \<Rightarrow> layer list" where
  "entry w =
     [app_use Cors (cors corsOptions),
      app_options_star CorsPreflight (cors corsOptions),
      app_use Helmet (opaque_stage w Helmet),
      app_use Limiter (limiter w),
      app_get ''/'' RootRoute root_route,
      app_get ''/favicon.ico'' FaviconRoute favicon_route]"

text \<open>Lines 130 to 161: cookie parser, body parsing, session.\<close>

definition parsing :: "world \<Rightarrow> layer list" where
  "parsing w =
     [app_use CookieParser (opaque_stage w CookieParser),
      app_use ExpressJson (body_parser ApplicationJson body_limit),
      app_use ExpressUrlencoded (body_parser FormUrlencoded body_limit),
      app_use SessionMiddleware (sessionMiddleware w)]"

text \<open>Lines 164 to 166: request logging, unless in production.\<close>

definition logging :: "world \<Rightarrow> layer list" where
  "logging w =
     (if env w ''NODE_ENV'' \<noteq> Some ''production''
      then [app_use Morgan (opaque_stage w Morgan)] else [])"

text \<open>Lines 169 to 194: the session test and the health check.\<close>

definition endpoints :: "world \<Rightarrow> layer list" where
  "endpoints w =
     [app_get ''/api/session-test'' SessionTest session_test,
      app_get ''/health'' Health (health w)]"

text \<open>Lines 197 to 199: the authentication chain.\<close>

definition authentication :: "world \<Rightarrow> layer list" where
  "authentication w =
     [app_use JwtAuth (opaque_stage w JwtAuth),
      app_use CheckRememberToken (opaque_stage w CheckRememberToken),
      app_use LoadUser (opaque_stage w LoadUser)]"

text \<open>Lines 202 to 206: the mounted routers.\<close>

definition api_routes :: "world \<Rightarrow> layer list" where
  "api_routes w =
     [app_use_at ''/api/auth'' AuthRoutes (opaque_stage w AuthRoutes),
      app_use_at ''/api/users'' UserRoutes (opaque_stage w UserRoutes),
      app_use_at ''/api/search'' SearchRoutes (opaque_stage w SearchRoutes),
      app_use_at ''/api/test'' TestRoutes (opaque_stage w TestRoutes),
      app_use_at ''/api/properties'' PropertyRouter (opaque_stage w PropertyRouter)]"

text \<open>Lines 209 to 214: the 404 handler, registered with \<^verbatim>\<open>app.use('*', ...)\<close>.\<close>

definition fallback :: "layer list" where
  "fallback = [app_use NotFound not_found]"

text \<open>Lines 217 to 224 and 240 to 246: the two error handlers.\<close>

definition error_handlers :: "world \<Rightarrow> layer list" where
  "error_handlers w =
     [app_use_error GlobalErrorHandler (global_error_handler w),
      app_use_error ErrorHandlingMiddleware (error_handling_middleware w)]"

definition app :: "world \<Rightarrow> layer list" where
  "app w =
     entry w @ parsing w @ logging w @ endpoints w @ authentication w @ api_routes w
     @ fallback @ error_handlers w"

subsection \<open>Serving a request\<close>

text \<open>
  Express walks the layers in order. While no error is pending it runs the matching
  handlers and skips the error handlers; once a handler has failed it skips to the next
  error handler; once a handler has sent the response nothing further runs. The trace
  lists the stages that ran, each with how it ended.
\<close>

datatype phase =
    Running "js_error option"
  | Done response

record dstate =
  ds_phase :: phase
  ds_ctx :: req_context
  ds_trace :: "(stage \<times> outcome) list"
  ds_log :: "log_entry list"

definition phase_after :: "outcome \<Rightarrow> phase" where
  "phase_after out =
     (case out of Next \<Rightarrow> Running None | NextErr e \<Rightarrow> Running (Some e) | Reply r \<Rightarrow> Done r)"

definition ran_stage :: "stage \<Rightarrow> step_result \<Rightarrow> dstate \<Rightarrow> dstate" where
  "ran_stage st r s =
     \<lparr>ds_phase = phase_after (sr_outcome r),
      ds_ctx = sr_ctx r,
      ds_trace = ds_trace s @ [(st, sr_outcome r)],
      ds_log = ds_log s @ sr_log r\<rparr>"

definition step :: "dstate \<Rightarrow> layer \<Rightarrow> dstate" where
  "step s l =
     (case ds_phase s of
        Done r \<Rightarrow> s
      | Running pending \<Rightarrow>
          if \<not> l_match l (ctx_req (ds_ctx s)) then s
          else (case (l_handler l, pending) of
                  (Middleware h, None) \<Rightarrow> ran_stage (l_stage l) (h (ds_ctx s)) s
                | (ErrorMiddleware h, Some e) \<Rightarrow> ran_stage (l_stage l) (h e (ds_ctx s)) s
                | _ \<Rightarrow> s))"

definition start :: "request \<Rightarrow> dstate" where
  "start req =
     \<lparr>ds_phase = Running None,
      ds_ctx = \<lparr>ctx_req = req, ctx_headers = [], ctx_body = None, ctx_session = None\<rparr>,
      ds_trace = [],
      ds_log = []\<rparr>"

definition handle :: "layer list \<Rightarrow> request \<Rightarrow> dstate" where
  "handle ls req = foldl step (start req) ls"

definition serve :: "world \<Rightarrow> request \<Rightarrow> dstate" where
  "serve w req = handle (app w) req"

text \<open>The stages that ran, and the response that was sent.\<close>

definition stages :: "dstate \<Rightarrow> stage list" where
  "stages s = map fst (ds_trace s)"

definition response_of :: "dstate \<Rightarrow> response option" where
  "response_of s = (case ds_phase s of Done r \<Rightarrow> Some r | Running pending \<Rightarrow> None)"

subsection \<open>Notions for the statements and proofs\<close>

text \<open>
  The words a regular expression denotes, to relate the matcher to a description of the
  origins it accepts.
\<close>

definition conc :: "string set \<Rightarrow> string set \<Rightarrow> string set" where
  "conc A B = {u @ v | u v. u \<in> A \<and> v \<in> B}"

inductive_set star :: "string set \<Rightarrow> string set" for A :: "string set" where
  star_nil: "[] \<in> star A"
| star_app: "u \<in> A \<Longrightarrow> v \<in> star A \<Longrightarrow> u @ v \<in> star A"

primrec lang :: "regex \<Rightarrow> string set" where
  "lang Never = {}"
| "lang Empty = {[]}"
| "lang (Lit c) = {[c]}"
| "lang Digit = {[c] | c. is_digit c}"
| "lang (Cat r s) = conc (lang r) (lang s)"
| "lang (Alt r s) = lang r \<union> lang s"
| "lang (Star r) = star (lang r)"

text \<open>
  An origin of the form \<^verbatim>\<open>http://localhost\<close> or \<^verbatim>\<open>https://localhost\<close>, followed or
  not by a colon and one or more digits.
\<close>

definition is_port :: "string \<Rightarrow> bool" where
  "is_port p = (case p of [] \<Rightarrow> True | c # ds \<Rightarrow> c = CHR '':'' \<and> ds \<noteq> [] \<and> list_all is_digit ds)"

definition localhost_origin :: "string \<Rightarrow> bool" where
  "localhost_origin s =
     (\<exists>port. is_port port \<and> (s = ''http://localhost'' @ port \<or> s = ''https://localhost'' @ port))"

text \<open>
  Layers that are not error handlers, and those among them that apply to every request;
  the errors raised along a trace, and the error a state is carrying.
\<close>

definition is_middleware :: "layer \<Rightarrow> bool" where
  "is_middleware l = (case l_handler l of Middleware h \<Rightarrow> True | ErrorMiddleware h \<Rightarrow> False)"

definition always :: "layer \<Rightarrow> bool" where
  "always l = (is_middleware l \<and> l_match l = (\<lambda>req. True))"

definition failure_of :: "stage \<times> outcome \<Rightarrow> js_error list" where
  "failure_of ev = (case snd ev of NextErr e \<Rightarrow> [e] | Next \<Rightarrow> [] | Reply r \<Rightarrow> [])"

definition failures :: "dstate \<Rightarrow> js_error list" where
  "failures s = concat (map failure_of (ds_trace s))"

definition pending :: "dstate \<Rightarrow> js_error list" where
  "pending s = (case ds_phase s of Running (Some e) \<Rightarrow> [e] | Running None \<Rightarrow> [] | Done r \<Rightarrow> [])"

text \<open>The layers before the 404 handler.\<close>

definition front :: "world \<Rightarrow> layer list" where
  "front w = entry w @ parsing w @ logging w @ endpoints w @ authentication w @ api_routes w"

subsection \<open>Example inputs\<close>

text \<open>
  A world in which nothing is configured and every mounted middleware calls
  \<^verbatim>\<open>next()\<close>, a session that was just created, and a request without origin or
  payload.
\<close>

definition fresh_session :: session_data where
  "fresh_session = \<lparr>sess_cookie = JObj [], sess_views = None\<rparr>"

definition quiet_world :: world where
  "quiet_world =
     \<lparr>process_env = Map.empty,
      dotenv_file = Map.empty,
      timestamp = ''2025-01-01T00:00:00.000Z'',
      uptime = 1,
      sequelize = True,
      opaque = (\<lambda>st. Next),
      limiter_hits = 1,
      session_lookup = Inr (''s1'', fresh_session)\<rparr>"

definition plain_request :: "http_method \<Rightarrow> string \<Rightarrow> request" where
  "plain_request m p = \<lparr>req_method = m, req_path = p, req_origin = None, req_payload = None\<rparr>"

section \<open>Properties\<close>

subsection \<open>The regular expressions of the allow-list\<close>

lemma conc_mem: "w \<in> conc A B \<longleftrightarrow> (\<exists>u v. w = u @ v \<and> u \<in> A \<and> v \<in> B)"
  unfolding conc_def by blast

lemma nullable_lang: "nullable r \<longleftrightarrow> [] \<in> lang r"
  by (induction r) (auto simp: conc_def intro: star.star_nil)

lemma conc_cons:
  "a # w \<in> conc A B \<longleftrightarrow>
     (\<exists>u v. w = u @ v \<and> a # u \<in> A \<and> v \<in> B) \<or> ([] \<in> A \<and> a # w \<in> B)"
  unfolding conc_def by (auto simp: Cons_eq_append_conv)

lemma star_cons: "a # w \<in> star A \<longleftrightarrow> (\<exists>u v. w = u @ v \<and> a # u \<in> A \<and> v \<in> star A)"
proof
  assume "a # w \<in> star A"
  then show "\<exists>u v. w = u @ v \<and> a # u \<in> A \<and> v \<in> star A"
  proof (induction "a # w" rule: star.induct)
    case (star_app u v)
    show ?case
    proof (cases u)
      case Nil
      with star_app show ?thesis by simp
    next
      case (Cons b u')
      with star_app show ?thesis by auto
    qed
  qed
next
  assume "\<exists>u v. w = u @ v \<and> a # u \<in> A \<and> v \<in> star A"
  then obtain u v where "w = u @ v" "a # u \<in> A" "v \<in> star A" by blast
  then show "a # w \<in> star A" using star.star_app [of "a # u" A v] by simp
qed

lemma deriv_lang: "w \<in> lang (deriv a r) \<longleftrightarrow> a # w \<in> lang r"
proof (induction r arbitrary: w)
  case (Cat r s)
  have "w \<in> conc (lang (deriv a r)) (lang s) \<longleftrightarrow> (\<exists>u v. w = u @ v \<and> a # u \<in> lang r \<and> v \<in> lang s)"
    unfolding conc_mem Cat ..
  then show ?case by (simp add: conc_cons nullable_lang Cat)
next
  case (Star r)
  have "w \<in> conc (lang (deriv a r)) (star (lang r)) \<longleftrightarrow>
        (\<exists>u v. w = u @ v \<and> a # u \<in> lang r \<and> v \<in> star (lang r))"
    unfolding conc_mem Star ..
  then show ?case by (simp add: star_cons)
qed simp_all

lemma matches_lang: "matches r w \<longleftrightarrow> w \<in> lang r"
  by (induction w arbitrary: r) (simp_all add: nullable_lang deriv_lang)

lemma conc_single: "w \<in> conc {u} B \<longleftrightarrow> (\<exists>v. v \<in> B \<and> w = u @ v)"
  unfolding conc_mem by auto

lemma conc_pair: "w \<in> conc {a, b} B \<longleftrightarrow> w \<in> conc {a} B \<or> w \<in> conc {b} B"
  unfolding conc_def by blast

lemma conc_singletons: "conc {u} {v} = {u @ v}"
  unfolding conc_def by blast

lemma lang_Str: "lang (Str s) = {s}"
  by (induction s) (simp_all add: conc_singletons)

lemma lang_Opt: "lang (Opt r) = insert [] (lang r)"
  by (auto simp: Opt_def)

lemma Digit_cons: "a # u \<in> lang Digit \<longleftrightarrow> u = [] \<and> is_digit a"
  by auto

lemma star_Digit: "w \<in> star (lang Digit) \<longleftrightarrow> list_all is_digit w"
proof (induction w)
  case Nil
  show ?case by (simp add: star.star_nil)
next
  case (Cons a w)
  show ?case unfolding star_cons Digit_cons using Cons by auto
qed

lemma lang_Plus_Digit: "w \<in> lang (Plus Digit) \<longleftrightarrow> w \<noteq> [] \<and> list_all is_digit w"
proof (cases w)
  case Nil
  then show ?thesis by (simp add: Plus_def conc_mem)
next
  case (Cons a u)
  have "a # u \<in> conc (lang Digit) (star (lang Digit)) \<longleftrightarrow> is_digit a \<and> list_all is_digit u"
    unfolding conc_cons Digit_cons star_Digit by auto
  with Cons show ?thesis by (simp add: Plus_def)
qed

lemma lang_port: "w \<in> lang (Opt (Cat (Lit CHR '':'') (Plus Digit))) \<longleftrightarrow> is_port w"
proof (cases w)
  case Nil
  then show ?thesis by (simp add: lang_Opt is_port_def)
next
  case (Cons a u)
  have "a # u \<in> conc {[CHR '':'']} (lang (Plus Digit)) \<longleftrightarrow> a = CHR '':'' \<and> u \<in> lang (Plus Digit)"
    unfolding conc_cons by auto
  with Cons show ?thesis by (simp add: lang_Opt is_port_def lang_Plus_Digit)
qed

lemma localhost_test: "regexp_test localhost_regexp s \<longleftrightarrow> localhost_origin s"
proof -
  let ?port = "lang (Opt (Cat (Lit CHR '':'') (Plus Digit)))"
  have "regexp_test localhost_regexp s \<longleftrightarrow>
        s \<in> conc {''http''} (conc {[], ''s''} (conc {''://localhost''} ?port))"
    unfolding localhost_regexp_def regexp_test.simps matches_lang lang.simps(5) lang_Str
    by (simp only: lang_Opt [of "Lit CHR ''s''"] lang.simps(3))
  also have "\<dots> \<longleftrightarrow> (\<exists>p. p \<in> ?port \<and> (s = ''http://localhost'' @ p \<or> s = ''https://localhost'' @ p))"
  proof -
    have "s \<in> conc {''http''} (conc {[], ''s''} (conc {''://localhost''} ?port)) \<longleftrightarrow>
          (\<exists>v. (v \<in> conc {[]} (conc {''://localhost''} ?port)
                \<or> v \<in> conc {''s''} (conc {''://localhost''} ?port)) \<and> s = ''http'' @ v)"
      unfolding conc_single [of s] conc_pair ..
    also have "\<dots> \<longleftrightarrow>
          (\<exists>p. p \<in> ?port \<and> (s = ''http'' @ [] @ ''://localhost'' @ p
                           \<or> s = ''http'' @ ''s'' @ ''://localhost'' @ p))"
      unfolding conc_single by blast
    finally show ?thesis by simp
  qed
  finally show ?thesis unfolding localhost_origin_def lang_port by blast
qed

lemma vercel_test: "regexp_test vercel_regexp s \<longleftrightarrow> suffix ''.vercel.app'' s"
  unfolding vercel_regexp_def regexp_test.simps list_ex_iff matches_lang lang_Str
  by (simp only: in_set_suffixes singleton_iff Bex_def) blast

lemma isAllowed_iff:
  "isAllowed s \<longleftrightarrow>
     localhost_origin s \<or> suffix ''.vercel.app'' s \<or> s = ''https://homeswift.ai''
     \<or> s = ''https://www.homeswift.ai''"
  unfolding isAllowed_def allowedOrigins_def list_ex_Nil_iff list_ex_Cons_iff pattern_matches.simps
    localhost_test vercel_test
  by (simp only: eq_commute [of _ s] simp_thms)

subsection \<open>Walking the layers\<close>

lemma ran_stage_simps [simp]:
  "ds_phase (ran_stage st r s) = phase_after (sr_outcome r)"
  "ds_ctx (ran_stage st r s) = sr_ctx r"
  "ds_trace (ran_stage st r s) = ds_trace s @ [(st, sr_outcome r)]"
  "ds_log (ran_stage st r s) = ds_log s @ sr_log r"
  by (simp_all add: ran_stage_def)

lemma step_cases:
  "step s l = s \<or>
   (ds_phase s = Running None \<and> l_match l (ctx_req (ds_ctx s))
      \<and> (\<exists>h. l_handler l = Middleware h \<and> step s l = ran_stage (l_stage l) (h (ds_ctx s)) s)) \<or>
   (\<exists>e. ds_phase s = Running (Some e) \<and> l_match l (ctx_req (ds_ctx s))
      \<and> (\<exists>h. l_handler l = ErrorMiddleware h \<and> step s l = ran_stage (l_stage l) (h e (ds_ctx s)) s))"
  by (auto simp: step_def split: phase.splits handler.splits option.splits)

lemma step_Done: "ds_phase s = Done r \<Longrightarrow> step s l = s"
  by (simp add: step_def)

lemma step_skip: "ds_phase s \<noteq> Running None \<Longrightarrow> is_middleware l \<Longrightarrow> step s l = s"
  by (auto simp: step_def is_middleware_def split: phase.splits handler.splits option.splits)

lemma step_always: "ds_phase s = Running None \<Longrightarrow> always l \<Longrightarrow>
   \<exists>h. l_handler l = Middleware h \<and> step s l = ran_stage (l_stage l) (h (ds_ctx s)) s"
  by (auto simp: step_def always_def is_middleware_def split: handler.splits)

lemma walk_Done: "ds_phase s = Done r \<Longrightarrow> foldl step s ls = s"
  by (induction ls) (simp_all add: step_Done)

lemma walk_skip: "ds_phase s \<noteq> Running None \<Longrightarrow> list_all is_middleware ls \<Longrightarrow> foldl step s ls = s"
  by (induction ls) (simp_all add: step_skip)

lemma step_trace:
  "ds_trace (step s l) = ds_trace s \<or> (\<exists>out. ds_trace (step s l) = ds_trace s @ [(l_stage l, out)])"
  using step_cases [of s l] by auto

lemma walk_trace:
  "\<exists>t. ds_trace (foldl step s ls) = ds_trace s @ t \<and> subseq (map fst t) (map l_stage ls)"
proof (induction ls arbitrary: s)
  case Nil
  show ?case by simp
next
  case (Cons l ls)
  from Cons [of "step s l"] obtain t where
    t: "ds_trace (foldl step (step s l) ls) = ds_trace (step s l) @ t"
       "subseq (map fst t) (map l_stage ls)"
    by blast
  from step_trace [of s l] show ?case
  proof
    assume "ds_trace (step s l) = ds_trace s"
    with t show ?thesis by (auto intro: subseq_Cons')  
  next
    assume "\<exists>out. ds_trace (step s l) = ds_trace s @ [(l_stage l, out)]"
    then obtain out where "ds_trace (step s l) = ds_trace s @ [(l_stage l, out)]" ..
    with t have "ds_trace (foldl step s (l # ls)) = ds_trace s @ ((l_stage l, out) # t)" by simp
    moreover have "subseq (map fst ((l_stage l, out) # t)) (map l_stage (l # ls))"
      using t(2) by simp
    ultimately show ?thesis by blast
  qed
qed

lemma walk_stages:
  "\<exists>t. stages (foldl step s ls) = stages s @ t \<and> subseq t (map l_stage ls)"
  using walk_trace [of s ls] unfolding stages_def by auto

lemma subseq_subset: "subseq xs ys \<Longrightarrow> set xs \<subseteq> set ys"
  by (induction rule: list_emb.induct) auto

lemma walk_stages_subset:
  "set (stages (foldl step s ls)) \<subseteq> set (stages s) \<union> l_stage ` set ls"
proof -
  from walk_stages [of s ls] obtain t where
    "stages (foldl step s ls) = stages s @ t" "subseq t (map l_stage ls)" by blast
  then show ?thesis using subseq_subset [of t "map l_stage ls"] by auto
qed

lemma walk_stages_mono: "set (stages s) \<subseteq> set (stages (foldl step s ls))"
  using walk_stages [of s ls] by auto

lemma failures_ran_stage: "failures (ran_stage st r s) = failures s @ failure_of (st, sr_outcome r)"
  by (simp add: failures_def)

lemma pending_after: "pending (ran_stage st r s) = failure_of (st, sr_outcome r)"
  by (simp add: pending_def failure_of_def phase_after_def split: outcome.splits)

lemma step_failures:
  assumes "is_middleware l" and "failures s = pending s"
  shows "failures (step s l) = pending (step s l)"
proof -
  from step_cases [of s l] consider
      "step s l = s"
    | h where "ds_phase s = Running None" "step s l = ran_stage (l_stage l) (h (ds_ctx s)) s"
    | h where "l_handler l = ErrorMiddleware h"
    by blast
  then show ?thesis
  proof cases
    case 1
    with assms show ?thesis by simp
  next
    case 2
    with assms(2) have "failures s = []" by (simp add: pending_def)
    with 2 show ?thesis by (simp add: failures_ran_stage pending_after)
  next
    case 3
    with assms(1) show ?thesis by (simp add: is_middleware_def)
  qed
qed

lemma walk_failures:
  "list_all is_middleware ls \<Longrightarrow> failures s = pending s \<Longrightarrow>
   failures (foldl step s ls) = pending (foldl step s ls)"
  by (induction ls arbitrary: s) (simp_all add: step_failures)

lemma step_still_running:
  assumes "ds_phase (step s l) = Running None" and "always l"
  shows "ds_phase s = Running None \<and> l_stage l \<in> set (stages (step s l))"
proof (cases "ds_phase s = Running None")
  case True
  from step_always [OF True assms(2)] show ?thesis using True by (auto simp: stages_def)
next
  case False
  with assms(2) have "step s l = s" by (simp add: step_skip always_def)
  with assms(1) False show ?thesis by simp
qed

lemma walk_still_running:
  "ds_phase (foldl step s ls) = Running None \<Longrightarrow> list_all always ls \<Longrightarrow>
   ds_phase s = Running None \<and> l_stage ` set ls \<subseteq> set (stages (foldl step s ls))"
proof (induction ls arbitrary: s)
  case Nil
  then show ?case by simp
next
  case (Cons l ls)
  from Cons.prems have run: "ds_phase (foldl step (step s l) ls) = Running None"
    and al: "always l" "list_all always ls" by simp_all
  from Cons.IH [OF run al(2)] have
    1: "ds_phase (step s l) = Running None"
    and 2: "l_stage ` set ls \<subseteq> set (stages (foldl step (step s l) ls))" by blast+
  from step_still_running [OF 1 al(1)] have
    3: "ds_phase s = Running None" and 4: "l_stage l \<in> set (stages (step s l))" by blast+
  from 4 walk_stages_mono [of "step s l" ls] have "l_stage l \<in> set (stages (foldl step (step s l) ls))"
    by blast
  with 2 3 show ?case by simp
qed

text \<open>A stage that ran_stage after a run of middleware was reached without a failure or reply before.\<close>

lemma reached:
  assumes "n \<in> set (stages (foldl step s (xs @ ys @ zs)))"
    and "n \<notin> set (stages s)" and "n \<notin> l_stage ` set xs" and "n \<notin> l_stage ` set zs"
    and "list_all is_middleware ys"
  shows "ds_phase (foldl step s xs) = Running None"
proof (rule ccontr)
  let ?sx = "foldl step s xs"
  assume "ds_phase ?sx \<noteq> Running None"
  from this assms(5) have "foldl step ?sx ys = ?sx" by (rule walk_skip)
  then have "foldl step s (xs @ ys @ zs) = foldl step ?sx zs" by simp
  with assms(1) have "n \<in> set (stages (foldl step ?sx zs))" by simp
  with walk_stages_subset [of ?sx zs] assms(4) have "n \<in> set (stages ?sx)" by blast
  with walk_stages_subset [of s xs] assms(2,3) show False by blast
qed

lemma served_here:
  assumes seen: "n \<in> set (stages (foldl step s (xs @ l # ys)))"
    and fresh: "n \<notin> set (stages s)" "n \<notin> l_stage ` set xs" "n \<notin> l_stage ` set ys"
    and l: "l_stage l = n" "l_handler l = Middleware h"
    and replies: "\<And>ctx. \<exists>r. sr_outcome (h ctx) = Reply r"
  shows "foldl step s (xs @ l # ys) = ran_stage n (h (ds_ctx (foldl step s xs))) (foldl step s xs)
         \<and> ds_phase (foldl step s xs) = Running None"
proof -
  let ?sx = "foldl step s xs"
  have nx: "n \<notin> set (stages ?sx)"
    using walk_stages_subset [of s xs] fresh(1,2) by blast
  have "n \<in> set (stages (foldl step (step ?sx l) ys))" using seen by simp
  with walk_stages_subset [of "step ?sx l" ys] fresh(3) have n1: "n \<in> set (stages (step ?sx l))"
    by blast
  have "step ?sx l \<noteq> ?sx" using n1 nx by auto
  with step_cases [of ?sx l] obtain h' where
    "ds_phase ?sx = Running None" "l_handler l = Middleware h'"
    "step ?sx l = ran_stage (l_stage l) (h' (ds_ctx ?sx)) ?sx"
    unfolding l(2) by blast
  with l have run: "ds_phase ?sx = Running None" and eq: "step ?sx l = ran_stage n (h (ds_ctx ?sx)) ?sx"
    by simp_all
  from replies obtain r where "sr_outcome (h (ds_ctx ?sx)) = Reply r" by blast
  with eq have "ds_phase (step ?sx l) = Done r" by (simp add: phase_after_def)
  then have "foldl step (step ?sx l) ys = step ?sx l" by (rule walk_Done)
  with eq run show ?thesis by simp
qed

subsection \<open>The layers of the application\<close>

lemma layer_stage [simp]:
  "l_stage (app_use st h) = st"
  "l_stage (app_use_at pat st h) = st"
  "l_stage (app_get pat st h) = st"
  "l_stage (app_options_star st h) = st"
  "l_stage (app_use_error st eh) = st"
  by (simp_all add: app_use_def app_use_at_def app_get_def app_options_star_def app_use_error_def)

lemma layer_kind [simp]:
  "is_middleware (app_use st h)"
  "is_middleware (app_use_at pat st h)"
  "is_middleware (app_get pat st h)"
  "is_middleware (app_options_star st h)"
  "\<not> is_middleware (app_use_error st eh)"
  "always (app_use st h)"
  by (simp_all add: is_middleware_def always_def app_use_def app_use_at_def app_get_def
      app_options_star_def app_use_error_def)

lemma segment_stages:
  "map l_stage (entry w) = [Cors, CorsPreflight, Helmet, Limiter, RootRoute, FaviconRoute]"
  "map l_stage (parsing w) = [CookieParser, ExpressJson, ExpressUrlencoded, SessionMiddleware]"
  "map l_stage (logging w) = (if env w ''NODE_ENV'' \<noteq> Some ''production'' then [Morgan] else [])"
  "map l_stage (endpoints w) = [SessionTest, Health]"
  "map l_stage (authentication w) = [JwtAuth, CheckRememberToken, LoadUser]"
  "map l_stage (api_routes w) = [AuthRoutes, UserRoutes, SearchRoutes, TestRoutes, PropertyRouter]"
  "map l_stage fallback = [NotFound]"
  "map l_stage (error_handlers w) = [GlobalErrorHandler, ErrorHandlingMiddleware]"
  by (simp_all add: entry_def parsing_def logging_def endpoints_def authentication_def
      api_routes_def fallback_def error_handlers_def)

lemma segment_stage_sets:
  "l_stage ` set (entry w) = {Cors, CorsPreflight, Helmet, Limiter, RootRoute, FaviconRoute}"
  "l_stage ` set (parsing w) = {CookieParser, ExpressJson, ExpressUrlencoded, SessionMiddleware}"
  "l_stage ` set (logging w) = (if env w ''NODE_ENV'' \<noteq> Some ''production'' then {Morgan} else {})"
  "l_stage ` set (endpoints w) = {SessionTest, Health}"
  "l_stage ` set (authentication w) = {JwtAuth, CheckRememberToken, LoadUser}"
  "l_stage ` set (api_routes w) = {AuthRoutes, UserRoutes, SearchRoutes, TestRoutes, PropertyRouter}"
  "l_stage ` set fallback = {NotFound}"
  "l_stage ` set (error_handlers w) = {GlobalErrorHandler, ErrorHandlingMiddleware}"
  by (simp_all add: entry_def parsing_def logging_def endpoints_def authentication_def
      api_routes_def fallback_def error_handlers_def)

lemma segment_middleware:
  "list_all is_middleware (entry w)"
  "list_all always (parsing w)"
  "list_all always (logging w)"
  "list_all is_middleware (endpoints w)"
  "list_all always (authentication w)"
  "list_all is_middleware (api_routes w)"
  "list_all always fallback"
  by (simp_all add: entry_def parsing_def logging_def endpoints_def authentication_def
      api_routes_def fallback_def)

lemma always_middleware: "list_all always ls \<Longrightarrow> list_all is_middleware ls"
  by (induction ls) (simp_all add: always_def)

lemma front_middleware: "list_all is_middleware (front w)"
  by (simp add: front_def segment_middleware always_middleware)

lemma front_stages:
  "l_stage ` set (front w) \<subseteq>
     {Cors, CorsPreflight, Helmet, Limiter, RootRoute, FaviconRoute, CookieParser, ExpressJson,
      ExpressUrlencoded, SessionMiddleware, Morgan, SessionTest, Health, JwtAuth,
      CheckRememberToken, LoadUser, AuthRoutes, UserRoutes, SearchRoutes, TestRoutes,
      PropertyRouter}"
proof -
  have "l_stage ` set (front w) = set (map l_stage (front w))" by simp
  also have "\<dots> \<subseteq> {Cors, CorsPreflight, Helmet, Limiter, RootRoute, FaviconRoute, CookieParser,
      ExpressJson, ExpressUrlencoded, SessionMiddleware, Morgan, SessionTest, Health, JwtAuth,
      CheckRememberToken, LoadUser, AuthRoutes, UserRoutes, SearchRoutes, TestRoutes,
      PropertyRouter}"
    unfolding front_def map_append segment_stages by auto
  finally show ?thesis .
qed

lemma app_stages:
  "map l_stage (app w) =
     [Cors, CorsPreflight, Helmet, Limiter, RootRoute, FaviconRoute, CookieParser, ExpressJson,
      ExpressUrlencoded, SessionMiddleware]
     @ (if env w ''NODE_ENV'' \<noteq> Some ''production'' then [Morgan] else [])
     @ [SessionTest, Health, JwtAuth, CheckRememberToken, LoadUser, AuthRoutes, UserRoutes,
        SearchRoutes, TestRoutes, PropertyRouter, NotFound, GlobalErrorHandler,
        ErrorHandlingMiddleware]"
  unfolding app_def map_append segment_stages by simp

subsection \<open>How a request ends\<close>

text \<open>
  After the layers before the 404 handler, a request is still running, carries an
  error, or has its response. The 404 handler answers the first, the first error
  handler the second, and nothing touches the third.
\<close>

lemma start_simps [simp]:
  "ds_phase (start req) = Running None"
  "ds_trace (start req) = []"
  "ds_log (start req) = []"
  "ctx_req (ds_ctx (start req)) = req"
  "stages (start req) = []"
  "failures (start req) = []"
  "pending (start req) = []"
  "ctx_headers (ds_ctx (start req)) = []"
  by (simp_all add: start_def stages_def failures_def pending_def)

lemma serve_front:
  "serve w req = foldl step (foldl step (foldl step (start req) (front w)) fallback) (error_handlers w)"
  by (simp add: serve_def handle_def app_def front_def)

lemma send_outcome [simp]:
  "sr_outcome (send code b ctx) = Reply \<lparr>res_status = code, res_headers = ctx_headers ctx, res_body = b\<rparr>"
  "sr_ctx (send code b ctx) = ctx"
  "sr_log (send code b ctx) = []"
  by (simp_all add: send_def)

lemma phase_after_simps [simp]:
  "phase_after Next = Running None"
  "phase_after (NextErr e) = Running (Some e)"
  "phase_after (Reply r) = Done r"
  by (simp_all add: phase_after_def)

lemma stages_ran_stage [simp]: "stages (ran_stage st r s) = stages s @ [st]"
  by (simp add: stages_def)



lemma serve_cases:
  fixes w req
  defines "sf \<equiv> foldl step (start req) (front w)"
  shows "failures sf = pending sf"
    and "set (stages sf) \<inter> {NotFound, GlobalErrorHandler, ErrorHandlingMiddleware} = {}"
    and "ds_phase sf = Running None \<Longrightarrow>
           serve w req = ran_stage NotFound (not_found (ds_ctx sf)) sf"
    and "ds_phase sf = Running (Some e) \<Longrightarrow>
           serve w req = ran_stage GlobalErrorHandler (global_error_handler w e (ds_ctx sf)) sf"
    and "ds_phase sf = Done r \<Longrightarrow> serve w req = sf"
proof -
  show "failures sf = pending sf"
    unfolding sf_def by (rule walk_failures) (simp_all add: front_middleware)
  show "set (stages sf) \<inter> {NotFound, GlobalErrorHandler, ErrorHandlingMiddleware} = {}"
    using walk_stages_subset [of "start req" "front w"] front_stages [of w]
    unfolding sf_def by auto
  show "serve w req = ran_stage NotFound (not_found (ds_ctx sf)) sf" if "ds_phase sf = Running None"
    using that unfolding serve_front sf_def [symmetric]
    by (simp add: fallback_def error_handlers_def step_def app_use_def app_use_error_def
        not_found_def)
  show "serve w req = ran_stage GlobalErrorHandler (global_error_handler w e (ds_ctx sf)) sf"
    if "ds_phase sf = Running (Some e)"
    using that unfolding serve_front sf_def [symmetric]
    by (simp add: fallback_def error_handlers_def step_def app_use_def app_use_error_def
        global_error_handler_def)
  show "serve w req = sf" if "ds_phase sf = Done r"
    using that unfolding serve_front sf_def [symmetric]
    by (simp add: walk_Done)
qed

lemma serve_subseq: "subseq (stages (serve w req)) (map l_stage (app w))"
  using walk_stages [of "start req" "app w"] by (simp add: serve_def handle_def)

lemma serve_stages_front:
  "set (stages (serve w req)) \<subseteq>
     set (stages (foldl step (start req) (front w))) \<union> {NotFound, GlobalErrorHandler}"
proof -
  define sf where "sf = foldl step (start req) (front w)"
  note sc = serve_cases [of req w, folded sf_def]
  have "set (stages (serve w req)) \<subseteq> set (stages sf) \<union> {NotFound, GlobalErrorHandler}"
  proof (cases "ds_phase sf")
    case (Running p)
    then show ?thesis using sc(3) sc(4) by (cases p) auto
  next
    case (Done r)
    then show ?thesis using sc(5) by auto
  qed
  then show ?thesis unfolding sf_def .
qed

lemma served_by_route:
  assumes app: "app w = xs @ app_get pat n h # ys"
    and fresh: "n \<notin> l_stage ` set xs" "n \<notin> l_stage ` set ys"
    and replies: "\<And>ctx. \<exists>r. sr_outcome (h ctx) = Reply r"
    and seen: "n \<in> set (stages (serve w req))"
  shows "serve w req = ran_stage n (h (ds_ctx (foldl step (start req) xs))) (foldl step (start req) xs)"
    and "ds_phase (foldl step (start req) xs) = Running None"
proof -
  have "foldl step (start req) (xs @ app_get pat n h # ys)
          = ran_stage n (h (ds_ctx (foldl step (start req) xs))) (foldl step (start req) xs)
        \<and> ds_phase (foldl step (start req) xs) = Running None"
  proof (rule served_here)
    show "n \<in> set (stages (foldl step (start req) (xs @ app_get pat n h # ys)))"
      using seen by (simp add: serve_def handle_def app)
    show "l_handler (app_get pat n h) = Middleware h" by (simp add: app_get_def)
  qed (use fresh replies in simp_all)
  then show "serve w req = ran_stage n (h (ds_ctx (foldl step (start req) xs))) (foldl step (start req) xs)"
    and "ds_phase (foldl step (start req) xs) = Running None"
    by (simp_all add: serve_def handle_def app)
qed

subsection \<open>Evaluation on concrete requests\<close>

lemmas eval_defs =
  serve_def handle_def app_def entry_def parsing_def logging_def endpoints_def authentication_def
  api_routes_def fallback_def error_handlers_def
  step_def start_def ran_stage_def phase_after_def stages_def response_of_def
  app_use_def app_use_at_def app_get_def app_options_star_def app_use_error_def
  cors_def corsOptions_def origin_callback_def actual_headers_def preflight_headers_def
  configureOrigin_def configureCredentials_def configureMethods_def configureAllowedHeaders_def
  configureMaxAge_def configureExposedHeaders_def
  opaque_stage_def limiter_def limiter_max_def limiter_message_def number_or_def parseInt_def
  env_def pass_def fail_def send_def
  root_route_def favicon_route_def session_test_def health_def not_found_def
  global_error_handler_def error_handling_middleware_def status_or_500_def
  body_parser_def body_limit_def too_large_def sessionMiddleware_def
  handles_get_def route_path_def mount_path_def lower_def to_lower_def
  quiet_world_def plain_request_def fresh_session_def js_increment_def next_views_def session_json_def
  new_Error_def cors_message_def

lemmas regexp_defs =
  isAllowed_def allowedOrigins_def localhost_regexp_def vercel_regexp_def Opt_def Plus_def
  is_digit_def


lemma evil_denied: "\<not> isAllowed ''https://evil.example''"
  by (simp add: regexp_defs)

subsection \<open>Error handling\<close>



subsection \<open>The order of the stages\<close>

lemma parsed_before_endpoints:
  assumes "n \<in> set (stages (serve w req))" and "n = SessionTest \<or> n = Health"
  shows "{CookieParser, ExpressJson, ExpressUrlencoded, SessionMiddleware}
           \<subseteq> set (stages (serve w req))"
proof -
  let ?xs = "entry w @ parsing w"
  let ?ys = "logging w @ endpoints w @ authentication w @ api_routes w"
  have fr: "front w = ?xs @ ?ys @ []" by (simp add: front_def)
  from assms serve_stages_front [of w req]
  have n: "n \<in> set (stages (foldl step (start req) (front w)))" by auto
  have "ds_phase (foldl step (start req) ?xs) = Running None"
  proof (rule reached [of n _ ?xs ?ys "[]"])
    show "n \<in> set (stages (foldl step (start req) (?xs @ ?ys @ [])))" using n fr by simp
    show "n \<notin> set (stages (start req))" by simp
    show "n \<notin> l_stage ` set ?xs"
      using assms(2) by (auto simp: segment_stage_sets image_Un)
    show "n \<notin> l_stage ` set []" by simp
    show "list_all is_middleware ?ys"
      by (simp add: segment_middleware always_middleware)
  qed
  then have "ds_phase (foldl step (foldl step (start req) (entry w)) (parsing w)) = Running None"
    by simp
  from walk_still_running [OF this segment_middleware(2)]
  have "l_stage ` set (parsing w) \<subseteq> set (stages (foldl step (start req) ?xs))" by simp
  moreover have "l_stage ` set (parsing w) = {CookieParser, ExpressJson, ExpressUrlencoded, SessionMiddleware}"
    by (rule segment_stage_sets)
  moreover have "set (stages (foldl step (start req) ?xs)) \<subseteq> set (stages (serve w req))"
    using walk_stages_mono [of "foldl step (start req) ?xs"
        "logging w @ endpoints w @ authentication w @ api_routes w @ fallback @ error_handlers w"]
    by (simp add: serve_def handle_def app_def)
  ultimately show ?thesis by blast
qed

lemma root_served:
  assumes "RootRoute \<in> set (stages (serve w req))"
  shows "set (stages (serve w req)) \<subseteq> {Cors, CorsPreflight, Helmet, Limiter, RootRoute}"
proof -
  define xs where "xs = [app_use Cors (cors corsOptions),
    app_options_star CorsPreflight (cors corsOptions),
    app_use Helmet (opaque_stage w Helmet), app_use Limiter (limiter w)]"
  define ys where "ys = app_get ''/favicon.ico'' FaviconRoute favicon_route # parsing w
    @ logging w @ endpoints w @ authentication w @ api_routes w @ fallback @ error_handlers w"
  define sx where "sx = foldl step (start req) xs"
  have app: "app w = xs @ app_get ''/'' RootRoute root_route # ys"
    by (simp add: app_def entry_def xs_def ys_def)
  have xs: "l_stage ` set xs = {Cors, CorsPreflight, Helmet, Limiter}"
    by (simp add: xs_def)
  have ys: "RootRoute \<notin> l_stage ` set ys"
    by (simp add: ys_def segment_stage_sets image_Un)
  have "serve w req = ran_stage RootRoute (root_route (ds_ctx sx)) sx"
    unfolding sx_def
    by (rule served_by_route(1) [OF app _ ys _ assms]) (simp_all add: xs root_route_def)
  then have "stages (serve w req) = stages sx @ [RootRoute]" by simp
  moreover have "set (stages sx) \<subseteq> {Cors, CorsPreflight, Helmet, Limiter}"
    using walk_stages_subset [of "start req" xs] by (simp add: sx_def xs)
  ultimately show ?thesis by auto
qed

lemma favicon_served:
  assumes "FaviconRoute \<in> set (stages (serve w req))"
  shows "set (stages (serve w req)) \<subseteq> {Cors, CorsPreflight, Helmet, Limiter, RootRoute, FaviconRoute}"
proof -
  define xs where "xs = [app_use Cors (cors corsOptions),
    app_options_star CorsPreflight (cors corsOptions),
    app_use Helmet (opaque_stage w Helmet), app_use Limiter (limiter w),
    app_get ''/'' RootRoute root_route]"
  define ys where "ys = parsing w @ logging w @ endpoints w @ authentication w @ api_routes w
    @ fallback @ error_handlers w"
  define sx where "sx = foldl step (start req) xs"
  have app: "app w = xs @ app_get ''/favicon.ico'' FaviconRoute favicon_route # ys"
    by (simp add: app_def entry_def xs_def ys_def)
  have xs: "l_stage ` set xs = {Cors, CorsPreflight, Helmet, Limiter, RootRoute}"
    by (simp add: xs_def)
  have ys: "FaviconRoute \<notin> l_stage ` set ys"
    by (simp add: ys_def segment_stage_sets image_Un)
  have "serve w req = ran_stage FaviconRoute (favicon_route (ds_ctx sx)) sx"
    unfolding sx_def
    by (rule served_by_route(1) [OF app _ ys _ assms]) (simp_all add: xs favicon_route_def)
  then have "stages (serve w req) = stages sx @ [FaviconRoute]" by simp
  moreover have "set (stages sx) \<subseteq> {Cors, CorsPreflight, Helmet, Limiter, RootRoute}"
    using walk_stages_subset [of "start req" xs] by (simp add: sx_def xs)
  ultimately show ?thesis by auto
qed


text \<open>
  C1, as the code has it. The stages run in the order of registration: CORS, the
  preflight route, security headers, rate limit, the root and favicon routes, cookie
  parsing, JSON and urlencoded body parsing, session, logging (outside production), the
  session test and the health check, the authentication chain, the routers, the 404
  handler, the error handlers. A request answered by the session test or the health check
  has passed cookie parsing, body parsing and the session stage; a request answered by
  the root or favicon route has passed none of them.
\<close>

theorem pipeline_order:
  "subseq (stages (serve w req)) (map l_stage (app w))
   \<and> map l_stage (app w) =
       [Cors, CorsPreflight, Helmet, Limiter, RootRoute, FaviconRoute, CookieParser, ExpressJson,
        ExpressUrlencoded, SessionMiddleware]
       @ (if env w ''NODE_ENV'' \<noteq> Some ''production'' then [Morgan] else [])
       @ [SessionTest, Health, JwtAuth, CheckRememberToken, LoadUser, AuthRoutes, UserRoutes,
          SearchRoutes, TestRoutes, PropertyRouter, NotFound, GlobalErrorHandler,
          ErrorHandlingMiddleware]
   \<and> (SessionTest \<in> set (stages (serve w req)) \<or> Health \<in> set (stages (serve w req)) \<longrightarrow>
        {CookieParser, ExpressJson, ExpressUrlencoded, SessionMiddleware}
          \<subseteq> set (stages (serve w req)))
   \<and> (RootRoute \<in> set (stages (serve w req)) \<or> FaviconRoute \<in> set (stages (serve w req)) \<longrightarrow>
        set (stages (serve w req))
          \<inter> {CookieParser, ExpressJson, ExpressUrlencoded, SessionMiddleware} = {})"
proof (intro conjI impI)
  show "subseq (stages (serve w req)) (map l_stage (app w))" by (rule serve_subseq)
  show "map l_stage (app w) =
       [Cors, CorsPreflight, Helmet, Limiter, RootRoute, FaviconRoute, CookieParser, ExpressJson,
        ExpressUrlencoded, SessionMiddleware]
       @ (if env w ''NODE_ENV'' \<noteq> Some ''production'' then [Morgan] else [])
       @ [SessionTest, Health, JwtAuth, CheckRememberToken, LoadUser, AuthRoutes, UserRoutes,
          SearchRoutes, TestRoutes, PropertyRouter, NotFound, GlobalErrorHandler,
          ErrorHandlingMiddleware]"
    by (rule app_stages)
  show "{CookieParser, ExpressJson, ExpressUrlencoded, SessionMiddleware}
          \<subseteq> set (stages (serve w req))"
    if "SessionTest \<in> set (stages (serve w req)) \<or> Health \<in> set (stages (serve w req))"
    using that parsed_before_endpoints [of _ w req] by blast
  show "set (stages (serve w req))
          \<inter> {CookieParser, ExpressJson, ExpressUrlencoded, SessionMiddleware} = {}"
    if "RootRoute \<in> set (stages (serve w req)) \<or> FaviconRoute \<in> set (stages (serve w req))"
    using that root_served [of w req] favicon_served [of w req] by auto
qed

theorem pipeline_order_witness:
  "SessionTest \<in> set (stages (serve quiet_world (plain_request GET ''/api/session-test'')))
   \<and> {CookieParser, ExpressJson, ExpressUrlencoded, SessionMiddleware}
        \<subseteq> set (stages (serve quiet_world (plain_request GET ''/api/session-test'')))
   \<and> FaviconRoute \<in> set (stages (serve quiet_world (plain_request GET ''/favicon.ico'')))
   \<and> set (stages (serve quiet_world (plain_request GET ''/favicon.ico'')))
        \<inter> {CookieParser, ExpressJson, ExpressUrlencoded, SessionMiddleware} = {}"
proof -
  have 1: "SessionTest \<in> set (stages (serve quiet_world (plain_request GET ''/api/session-test'')))"
    by (simp add: eval_defs)
  have 2: "FaviconRoute \<in> set (stages (serve quiet_world (plain_request GET ''/favicon.ico'')))"
    by (simp add: eval_defs)
  show ?thesis
    using 1 2 pipeline_order [of quiet_world "plain_request GET ''/api/session-test''"]
      pipeline_order [of quiet_world "plain_request GET ''/favicon.ico''"]
    by blast
qed


text \<open>
  \<^verbatim>\<open>GET /\<close> is answered by the root route after CORS, helmet and the rate limiter
  only: cookie parsing, body parsing and the session stage have not run.
\<close>

theorem root_served_before_parsing:
  "stages (serve quiet_world (plain_request GET ''/'')) = [Cors, Helmet, Limiter, RootRoute]
   \<and> response_of (serve quiet_world (plain_request GET ''/'')) =
       Some \<lparr>res_status = 200,
             res_headers =
               [(''Vary'', ''Origin''), (''Access-Control-Allow-Credentials'', ''true''),
                (''Access-Control-Expose-Headers'',
                 ''Content-Range,X-Total-Count,X-Access-Token,X-Refresh-Token,Set-Cookie'')],
             res_body = TextBody banner\<rparr>"
  by (simp add: eval_defs)

subsection \<open>Origin authorization and preflight\<close>

lemma origin_callback_allow:
  "cb_allow (origin_callback origin) \<longleftrightarrow>
     (case origin of None \<Rightarrow> True | Some s \<Rightarrow> s = [] \<or> isAllowed s)"
  by (simp add: origin_callback_def split: option.splits)

lemma origin_callback_allowed:
  "cb_allow (origin_callback origin) \<Longrightarrow>
   origin_callback origin = \<lparr>cb_error = None, cb_allow = True, cb_log = []\<rparr>"
  by (auto simp: origin_callback_def split: option.splits if_splits)

lemma origin_callback_denied:
  "s \<noteq> [] \<Longrightarrow> \<not> isAllowed s \<Longrightarrow>
   origin_callback (Some s) =
     \<lparr>cb_error = Some (new_Error (cors_message s)), cb_allow = False,
      cb_log = [ConsoleWarn (cors_message s)]\<rparr>"
  by (simp add: origin_callback_def)

lemma cors_denied:
  assumes "req_origin (ctx_req ctx) = Some s" and "s \<noteq> []" and "\<not> isAllowed s"
  shows "cors corsOptions ctx =
     \<lparr>sr_outcome = NextErr (new_Error (cors_message s)), sr_ctx = ctx,
      sr_log = [ConsoleWarn (cors_message s)]\<rparr>"
  using assms by (simp add: cors_def corsOptions_def origin_callback_denied)

lemma string_of_86400: "string_of_nat 86400 = ''86400''"
  by (simp add: string_of_nat.simps digit_char_def)

lemma preflight_headers_corsOptions:
  "preflight_headers corsOptions req =
     configureOrigin req @
     [(''Access-Control-Allow-Credentials'', ''true''),
      (''Access-Control-Allow-Methods'', ''GET,POST,PUT,DELETE,PATCH,OPTIONS,HEAD''),
      (''Access-Control-Allow-Headers'',
       ''Content-Type,Authorization,X-Requested-With,Accept,Origin,X-Access-Token,X-Refresh-Token,X-XSRF-TOKEN''),
      (''Access-Control-Max-Age'', ''86400''),
      (''Access-Control-Expose-Headers'',
       ''Content-Range,X-Total-Count,X-Access-Token,X-Refresh-Token,Set-Cookie'')]"
  by (simp add: preflight_headers_def corsOptions_def configureCredentials_def
      configureMethods_def configureAllowedHeaders_def configureMaxAge_def
      configureExposedHeaders_def string_of_86400)

lemma actual_headers_corsOptions:
  "actual_headers corsOptions req =
     configureOrigin req @
     [(''Access-Control-Allow-Credentials'', ''true''),
      (''Access-Control-Expose-Headers'',
       ''Content-Range,X-Total-Count,X-Access-Token,X-Refresh-Token,Set-Cookie'')]"
  by (simp add: actual_headers_def corsOptions_def configureCredentials_def
      configureExposedHeaders_def)

lemma cors_preflight:
  assumes "cb_allow (origin_callback (req_origin (ctx_req ctx)))"
    and "req_method (ctx_req ctx) = OPTIONS"
  shows "cors corsOptions ctx =
     \<lparr>sr_outcome = Reply
        \<lparr>res_status = 204,
         res_headers = ctx_headers ctx @ preflight_headers corsOptions (ctx_req ctx)
                       @ [(''Content-Length'', ''0'')],
         res_body = NoBody\<rparr>,
      sr_ctx = ctx\<lparr>ctx_headers := ctx_headers ctx @ preflight_headers corsOptions (ctx_req ctx)\<rparr>,
      sr_log = []\<rparr>"
proof -
  have "cors_origin corsOptions = origin_callback" "cors_preflightContinue corsOptions = False"
    "cors_optionsSuccessStatus corsOptions = 204"
    by (simp_all add: corsOptions_def)
  then show ?thesis
    using assms origin_callback_allowed [OF assms(1)] by (simp add: cors_def Let_def)
qed

lemma cors_actual:
  assumes "cb_allow (origin_callback (req_origin (ctx_req ctx)))"
    and "req_method (ctx_req ctx) \<noteq> OPTIONS"
  shows "cors corsOptions ctx =
     \<lparr>sr_outcome = Next,
      sr_ctx = ctx\<lparr>ctx_headers := ctx_headers ctx @ actual_headers corsOptions (ctx_req ctx)\<rparr>,
      sr_log = []\<rparr>"
proof -
  have "cors_origin corsOptions = origin_callback" by (simp add: corsOptions_def)
  then show ?thesis
    using assms origin_callback_allowed [OF assms(1)] by (simp add: cors_def Let_def)
qed

lemma front_Cors:
  "\<exists>rest. front w = app_use Cors (cors corsOptions) # rest \<and> list_all is_middleware rest"
proof -
  have "front w = app_use Cors (cors corsOptions) # tl (front w)"
    by (simp add: front_def entry_def)
  moreover have "list_all is_middleware (tl (front w))"
    using front_middleware [of w] by (cases "front w") simp_all
  ultimately show ?thesis by blast
qed

lemma step_Cors:
  "step (start req) (app_use Cors (cors corsOptions))
     = ran_stage Cors (cors corsOptions (ds_ctx (start req))) (start req)"
  by (simp add: step_def app_use_def)

lemma serve_denied:
  assumes "req_origin req = Some s" and "s \<noteq> []" and "\<not> isAllowed s"
  shows "serve w req =
     \<lparr>ds_phase = Done \<lparr>res_status = 500, res_headers = [],
          res_body = JsonBody (JObj
            [(''success'', JBool False),
             (''error'', JStr (if env w ''NODE_ENV'' = Some ''production''
                               then ''Something went wrong!'' else cors_message s))])\<rparr>,
      ds_ctx = ds_ctx (start req),
      ds_trace =
        [(Cors, NextErr (new_Error (cors_message s))),
         (GlobalErrorHandler, Reply \<lparr>res_status = 500, res_headers = [],
          res_body = JsonBody (JObj
            [(''success'', JBool False),
             (''error'', JStr (if env w ''NODE_ENV'' = Some ''production''
                               then ''Something went wrong!'' else cors_message s))])\<rparr>)],
      ds_log = [ConsoleWarn (cors_message s), ConsoleError ''Global error handler: '']\<rparr>"
proof -
  define s1 where "s1 = step (start req) (app_use Cors (cors corsOptions))"
  from front_Cors obtain rest where
    rest: "front w = app_use Cors (cors corsOptions) # rest" "list_all is_middleware rest" by blast
  have c: "cors corsOptions (ds_ctx (start req)) =
     \<lparr>sr_outcome = NextErr (new_Error (cors_message s)), sr_ctx = ds_ctx (start req),
      sr_log = [ConsoleWarn (cors_message s)]\<rparr>"
    by (rule cors_denied) (use assms in simp_all)
  have s1: "s1 = ran_stage Cors (cors corsOptions (ds_ctx (start req))) (start req)"
    unfolding s1_def by (rule step_Cors)
  then have ph: "ds_phase s1 = Running (Some (new_Error (cors_message s)))"
    by (simp add: c)
  then have "foldl step s1 rest = s1" using rest(2) by (simp add: walk_skip)
  then have sf: "foldl step (start req) (front w) = s1" by (simp add: rest(1) s1_def)
  have "serve w req = ran_stage GlobalErrorHandler
          (global_error_handler w (new_Error (cors_message s)) (ds_ctx s1)) s1"
    using serve_cases(4) [of req w "new_Error (cors_message s)"] ph unfolding sf by simp
  then show ?thesis
    unfolding s1
    by (simp add: c ran_stage_def global_error_handler_def send_def new_Error_def
        status_or_500_def)
qed

lemma serve_preflight:
  assumes "req_method req = OPTIONS" and "cb_allow (origin_callback (req_origin req))"
  shows "serve w req = ran_stage Cors (cors corsOptions (ds_ctx (start req))) (start req)"
proof -
  have c: "cors corsOptions (ds_ctx (start req)) =
     \<lparr>sr_outcome = Reply
        \<lparr>res_status = 204,
         res_headers = ctx_headers (ds_ctx (start req))
                       @ preflight_headers corsOptions (ctx_req (ds_ctx (start req)))
                       @ [(''Content-Length'', ''0'')],
         res_body = NoBody\<rparr>,
      sr_ctx = (ds_ctx (start req))\<lparr>ctx_headers := ctx_headers (ds_ctx (start req))
                 @ preflight_headers corsOptions (ctx_req (ds_ctx (start req)))\<rparr>,
      sr_log = []\<rparr>"
    by (rule cors_preflight) (use assms in simp_all)
  have "app w = app_use Cors (cors corsOptions) # tl (app w)"
    by (simp add: app_def entry_def)
  then have "serve w req = foldl step (step (start req) (app_use Cors (cors corsOptions))) (tl (app w))"
    unfolding serve_def handle_def by (metis foldl_Cons)
  also have "\<dots> = step (start req) (app_use Cors (cors corsOptions))"
    by (rule walk_Done [where r = "\<lparr>res_status = 204,
         res_headers = ctx_headers (ds_ctx (start req))
                       @ preflight_headers corsOptions (ctx_req (ds_ctx (start req)))
                       @ [(''Content-Length'', ''0'')],
         res_body = NoBody\<rparr>"]) (simp add: step_Cors c)
  finally show ?thesis by (simp add: step_Cors)
qed


text \<open>
  C2. A request without an origin (no header, or an empty one, which \<^verbatim>\<open>!origin\<close>
  treats alike) is allowed, and the response allows credentials. A request with an
  origin is allowed exactly when the origin is \<^verbatim>\<open>http://localhost\<close> or
  \<^verbatim>\<open>https://localhost\<close> with or without a port, ends in \<^verbatim>\<open>.vercel.app\<close>, or is
  one of the two production domains. For any other origin the CORS stage warns on the
  console and fails the request: only the first error handler runs after it, and the
  response has status 500.
\<close>

theorem origin_authorization:
  "origin_callback None = \<lparr>cb_error = None, cb_allow = True, cb_log = []\<rparr>
   \<and> (no_origin (req_origin (ctx_req ctx)) \<longrightarrow>
        (\<forall>e. sr_outcome (cors corsOptions ctx) \<noteq> NextErr e)
        \<and> (''Access-Control-Allow-Credentials'', ''true'')
             \<in> set (ctx_headers (sr_ctx (cors corsOptions ctx))))
   \<and> (s \<noteq> [] \<longrightarrow>
        (cb_allow (origin_callback (Some s)) \<longleftrightarrow>
           localhost_origin s \<or> suffix ''.vercel.app'' s \<or> s = ''https://homeswift.ai''
           \<or> s = ''https://www.homeswift.ai''))
   \<and> (req_origin req = Some s \<and> s \<noteq> []
        \<and> \<not> (localhost_origin s \<or> suffix ''.vercel.app'' s \<or> s = ''https://homeswift.ai''
               \<or> s = ''https://www.homeswift.ai'') \<longrightarrow>
        ds_trace (serve w req) =
          [(Cors, NextErr (new_Error (''CORS policy: '' @ s @ '' not allowed''))),
           (GlobalErrorHandler, Reply \<lparr>res_status = 500, res_headers = [],
              res_body = JsonBody (JObj
                [(''success'', JBool False),
                 (''error'', JStr (if env w ''NODE_ENV'' = Some ''production''
                                   then ''Something went wrong!''
                                   else ''CORS policy: '' @ s @ '' not allowed''))])\<rparr>)]
        \<and> ConsoleWarn (''CORS policy: '' @ s @ '' not allowed'') \<in> set (ds_log (serve w req))
        \<and> (\<exists>r. response_of (serve w req) = Some r \<and> res_status r = 500))"
proof (intro conjI impI)
  show "origin_callback None = \<lparr>cb_error = None, cb_allow = True, cb_log = []\<rparr>"
    by (simp add: origin_callback_def)
next
  assume n: "no_origin (req_origin (ctx_req ctx))"
  then have a: "cb_allow (origin_callback (req_origin (ctx_req ctx)))"
    by (simp add: no_origin_def origin_callback_allow split: option.splits)
  show "\<forall>e. sr_outcome (cors corsOptions ctx) \<noteq> NextErr e"
    using cors_preflight [OF a] cors_actual [OF a]
    by (cases "req_method (ctx_req ctx) = OPTIONS") simp_all
  show "(''Access-Control-Allow-Credentials'', ''true'')
          \<in> set (ctx_headers (sr_ctx (cors corsOptions ctx)))"
    using cors_preflight [OF a] cors_actual [OF a]
    by (cases "req_method (ctx_req ctx) = OPTIONS")
      (simp_all add: preflight_headers_corsOptions actual_headers_corsOptions)
next
  assume "s \<noteq> []"
  then show "cb_allow (origin_callback (Some s)) \<longleftrightarrow>
           localhost_origin s \<or> suffix ''.vercel.app'' s \<or> s = ''https://homeswift.ai''
           \<or> s = ''https://www.homeswift.ai''"
    by (simp add: origin_callback_allow isAllowed_iff)
next
  assume "req_origin req = Some s \<and> s \<noteq> []
        \<and> \<not> (localhost_origin s \<or> suffix ''.vercel.app'' s \<or> s = ''https://homeswift.ai''
               \<or> s = ''https://www.homeswift.ai'')"
  then have d: "req_origin req = Some s" "s \<noteq> []" "\<not> isAllowed s"
    by (simp_all add: isAllowed_iff)
  note sd = serve_denied [OF d, of w]
  show "ds_trace (serve w req) =
          [(Cors, NextErr (new_Error (''CORS policy: '' @ s @ '' not allowed''))),
           (GlobalErrorHandler, Reply \<lparr>res_status = 500, res_headers = [],
              res_body = JsonBody (JObj
                [(''success'', JBool False),
                 (''error'', JStr (if env w ''NODE_ENV'' = Some ''production''
                                   then ''Something went wrong!''
                                   else ''CORS policy: '' @ s @ '' not allowed''))])\<rparr>)]"
    unfolding sd by (simp add: cors_message_def)
  show "ConsoleWarn (''CORS policy: '' @ s @ '' not allowed'') \<in> set (ds_log (serve w req))"
    unfolding sd by (simp add: cors_message_def)
  show "\<exists>r. response_of (serve w req) = Some r \<and> res_status r = 500"
    unfolding sd by (simp add: response_of_def)
qed

theorem origin_authorization_witness:
  "cb_allow (origin_callback (Some ''http://localhost:5173''))
   \<and> \<not> cb_allow (origin_callback (Some ''https://evil.example''))
   \<and> ConsoleWarn ''CORS policy: https://evil.example not allowed''
        \<in> set (ds_log (serve quiet_world
              \<lparr>req_method = GET, req_path = ''/api/properties'',
               req_origin = Some ''https://evil.example'', req_payload = None\<rparr>))
   \<and> (''Access-Control-Allow-Credentials'', ''true'')
        \<in> set (ctx_headers (sr_ctx (cors corsOptions (ds_ctx (start (plain_request GET ''/health''))))))"
proof -
  have ok: "localhost_origin ''http://localhost:5173''"
    unfolding localhost_origin_def
    by (rule exI [of _ "'':5173''"]) (simp add: is_port_def is_digit_def)
  have bad': "\<not> (localhost_origin ''https://evil.example''
      \<or> suffix ''.vercel.app'' ''https://evil.example''
      \<or> ''https://evil.example'' = ''https://homeswift.ai''
      \<or> ''https://evil.example'' = ''https://www.homeswift.ai'')"
    using evil_denied isAllowed_iff [of "''https://evil.example''"] by blast
  have none: "no_origin (req_origin (ctx_req (ds_ctx (start (plain_request GET ''/health'')))))"
    by (simp add: no_origin_def plain_request_def)
  show ?thesis
    using ok bad' none
      origin_authorization [of "ds_ctx (start (plain_request GET ''/health''))"
        "''http://localhost:5173''" "plain_request GET ''/health''" quiet_world]
      origin_authorization [of "ds_ctx (start (plain_request GET ''/health''))"
        "''https://evil.example''"
        "\<lparr>req_method = GET, req_path = ''/api/properties'',
          req_origin = Some ''https://evil.example'', req_payload = None\<rparr>" quiet_world]
    by simp
qed


text \<open>
  C3, as the code has it. For every path, an OPTIONS request whose origin the origin
  function allows is answered by the CORS stage itself with status 204, no body and the
  allow headers, among them a maximum age of 86400 seconds, that is 24 hours; no later
  stage runs, since \<^verbatim>\<open>preflightContinue\<close> is off.
\<close>

theorem preflight_answered_by_cors:
  "(req_method req = OPTIONS \<and> cb_allow (origin_callback (req_origin req)) \<longrightarrow>
      ds_trace (serve w req) =
        [(Cors, Reply
           \<lparr>res_status = 204,
            res_headers = configureOrigin req @
              [(''Access-Control-Allow-Credentials'', ''true''),
               (''Access-Control-Allow-Methods'', ''GET,POST,PUT,DELETE,PATCH,OPTIONS,HEAD''),
               (''Access-Control-Allow-Headers'',
                ''Content-Type,Authorization,X-Requested-With,Accept,Origin,X-Access-Token,X-Refresh-Token,X-XSRF-TOKEN''),
               (''Access-Control-Max-Age'', ''86400''),
               (''Access-Control-Expose-Headers'',
                ''Content-Range,X-Total-Count,X-Access-Token,X-Refresh-Token,Set-Cookie''),
               (''Content-Length'', ''0'')],
            res_body = NoBody\<rparr>)]
      \<and> (\<exists>r. response_of (serve w req) = Some r \<and> res_status r = 204 \<and> res_body r = NoBody
             \<and> (''Access-Control-Max-Age'', ''86400'') \<in> set (res_headers r)))
   \<and> cors_maxAge corsOptions = 24 * 60 * 60
   \<and> \<not> cors_preflightContinue corsOptions
   \<and> cors_optionsSuccessStatus corsOptions = 204"
proof (intro conjI impI)
  assume a: "req_method req = OPTIONS \<and> cb_allow (origin_callback (req_origin req))"
  then have c: "cors corsOptions (ds_ctx (start req)) =
     \<lparr>sr_outcome = Reply
        \<lparr>res_status = 204,
         res_headers = ctx_headers (ds_ctx (start req))
                       @ preflight_headers corsOptions (ctx_req (ds_ctx (start req)))
                       @ [(''Content-Length'', ''0'')],
         res_body = NoBody\<rparr>,
      sr_ctx = (ds_ctx (start req))\<lparr>ctx_headers := ctx_headers (ds_ctx (start req))
                 @ preflight_headers corsOptions (ctx_req (ds_ctx (start req)))\<rparr>,
      sr_log = []\<rparr>"
    by (intro cors_preflight) simp_all
  from a have s: "serve w req = ran_stage Cors (cors corsOptions (ds_ctx (start req))) (start req)"
    by (simp add: serve_preflight)
  show "ds_trace (serve w req) =
        [(Cors, Reply
           \<lparr>res_status = 204,
            res_headers = configureOrigin req @
              [(''Access-Control-Allow-Credentials'', ''true''),
               (''Access-Control-Allow-Methods'', ''GET,POST,PUT,DELETE,PATCH,OPTIONS,HEAD''),
               (''Access-Control-Allow-Headers'',
                ''Content-Type,Authorization,X-Requested-With,Accept,Origin,X-Access-Token,X-Refresh-Token,X-XSRF-TOKEN''),
               (''Access-Control-Max-Age'', ''86400''),
               (''Access-Control-Expose-Headers'',
                ''Content-Range,X-Total-Count,X-Access-Token,X-Refresh-Token,Set-Cookie''),
               (''Content-Length'', ''0'')],
            res_body = NoBody\<rparr>)]"
    unfolding s by (simp add: c preflight_headers_corsOptions)
  show "\<exists>r. response_of (serve w req) = Some r \<and> res_status r = 204 \<and> res_body r = NoBody
             \<and> (''Access-Control-Max-Age'', ''86400'') \<in> set (res_headers r)"
    unfolding s by (simp add: c response_of_def preflight_headers_corsOptions)
qed (simp_all add: corsOptions_def)

theorem preflight_answered_by_cors_witness:
  "stages (serve quiet_world
      \<lparr>req_method = OPTIONS, req_path = ''/api/properties'',
       req_origin = Some ''https://homeswift.ai'', req_payload = None\<rparr>) = [Cors]
   \<and> (\<exists>r. response_of (serve quiet_world
      \<lparr>req_method = OPTIONS, req_path = ''/api/properties'',
       req_origin = Some ''https://homeswift.ai'', req_payload = None\<rparr>) = Some r
        \<and> res_status r = 204
        \<and> (''Access-Control-Max-Age'', ''86400'') \<in> set (res_headers r))"
proof -
  have a: "cb_allow (origin_callback (Some ''https://homeswift.ai''))"
    by (simp add: origin_callback_def regexp_defs)
  show ?thesis
    using a preflight_answered_by_cors [of
        "\<lparr>req_method = OPTIONS, req_path = ''/api/properties'',
          req_origin = Some ''https://homeswift.ai'', req_payload = None\<rparr>" quiet_world]
    by (auto simp: stages_def)
qed


text \<open>
  An OPTIONS request from an origin outside the allow-list is not answered with 204: the
  CORS stage fails it, and the first error handler answers with status 500.
\<close>

theorem preflight_denied_origin:
  "stages (serve quiet_world
      \<lparr>req_method = OPTIONS, req_path = ''/api/properties'',
       req_origin = Some ''https://evil.example'', req_payload = None\<rparr>)
     = [Cors, GlobalErrorHandler]
   \<and> response_of (serve quiet_world
      \<lparr>req_method = OPTIONS, req_path = ''/api/properties'',
       req_origin = Some ''https://evil.example'', req_payload = None\<rparr>)
     = Some \<lparr>res_status = 500, res_headers = [],
             res_body = JsonBody (JObj
               [(''success'', JBool False),
                (''error'', JStr ''CORS policy: https://evil.example not allowed'')])\<rparr>"
  by (simp add: eval_defs evil_denied)

subsection \<open>Session and proxy configuration\<close>

text \<open>
  The cookie settings and the \<^verbatim>\<open>proxy\<close> option of the session stage follow
  \<open>isProduction\<close>; the \<^verbatim>\<open>trust proxy\<close> setting of the application follows the
  value \<^verbatim>\<open>NODE_ENV\<close> had before \<^verbatim>\<open>.env\<close> was loaded.
\<close>

lemma session_config_by_mode:
  "opt_proxy (sessionConfig w) = isProduction w"
  "cookie_secure (opt_cookie (sessionConfig w)) = (if isProduction w then SecureTrue else SecureAuto)"
  "cookie_sameSite (opt_cookie (sessionConfig w)) = (if isProduction w then ''none'' else ''lax'')"
  "cookie_domain (opt_cookie (sessionConfig w)) =
     (if isProduction w then ''.homeswift-ai.vercel.app'' else ''localhost'')"
  by (simp_all add: sessionConfig_def)

lemma trust_proxy_by_process_env:
  "trust_proxy w = (if process_env w ''NODE_ENV'' = Some ''production'' then Some 1 else None)"
  by (simp add: trust_proxy_def)

lemma isProduction_by_env:
  "isProduction w \<longleftrightarrow>
     process_env w ''NODE_ENV'' = Some ''production''
     \<or> (process_env w ''NODE_ENV'' = None \<and> dotenv_file w ''NODE_ENV'' = Some ''production'')"
  by (auto simp: isProduction_def env_def map_add_def split: option.splits)

text \<open>
  C4. In production the session cookie is secure with cross-site policy \<^verbatim>\<open>none\<close> and
  the production domain, and proxy headers are trusted by the session stage and by the
  application; otherwise the cookie is \<^verbatim>\<open>auto\<close>, \<^verbatim>\<open>lax\<close>, \<^verbatim>\<open>localhost\<close> and no
  proxy is trusted. The application's setting is taken before \<^verbatim>\<open>.env\<close> is loaded:
  when \<^verbatim>\<open>NODE_ENV=production\<close> comes from \<^verbatim>\<open>server/.env\<close> and not from the
  process environment, the session stage is configured for production and trusts the
  proxy, while the application does not.
\<close>

theorem trust_proxy_misses_dotenv:
  "isProduction (quiet_world\<lparr>dotenv_file := [''NODE_ENV'' \<mapsto> ''production'']\<rparr>)
   \<and> opt_proxy (sessionConfig (quiet_world\<lparr>dotenv_file := [''NODE_ENV'' \<mapsto> ''production'']\<rparr>))
   \<and> cookie_secure (opt_cookie (sessionConfig
         (quiet_world\<lparr>dotenv_file := [''NODE_ENV'' \<mapsto> ''production'']\<rparr>))) = SecureTrue
   \<and> trust_proxy (quiet_world\<lparr>dotenv_file := [''NODE_ENV'' \<mapsto> ''production'']\<rparr>) = None"
  by (simp add: isProduction_def env_def sessionConfig_def trust_proxy_def quiet_world_def)

end
